theory Spec2Isabelle
  imports Complex_Main "HOL-Library.Sublist" "HOL-Library.Multiset"
begin

section \<open>JavaScript strings\<close>

text \<open>
  A JavaScript string is a sequence of UTF-16 code units; a code unit is modelled by its
  number. \<open>js\<close> reads an ASCII literal as such a string.
\<close>

type_synonym jsstring = "nat list"

definition js :: "string \<Rightarrow> jsstring" where
  "js s = map of_char s"

text \<open>
  White space as \<^verbatim>\<open>\s\<close> and \<^verbatim>\<open>String.prototype.trim\<close> see it (ECMAScript WhiteSpace and
  LineTerminator), the line terminators that \<^verbatim>\<open>.\<close> does not match, and the ASCII digits of
  \<^verbatim>\<open>\d\<close>.
\<close>

definition isWhiteSpace :: "nat \<Rightarrow> bool" where
  "isWhiteSpace c = (c = 9 \<or> c = 10 \<or> c = 11 \<or> c = 12 \<or> c = 13 \<or> c = 32 \<or> c = 160
     \<or> c = 5760 \<or> (8192 \<le> c \<and> c \<le> 8202) \<or> c = 8232 \<or> c = 8233 \<or> c = 8239
     \<or> c = 8287 \<or> c = 12288 \<or> c = 65279)"

definition isLineTerminator :: "nat \<Rightarrow> bool" where
  "isLineTerminator c = (c = 10 \<or> c = 13 \<or> c = 8232 \<or> c = 8233)"

definition isDigit :: "nat \<Rightarrow> bool" where
  "isDigit c = (48 \<le> c \<and> c \<le> 57)"

text \<open>
  \<^verbatim>\<open>toLowerCase\<close> on strings of Basic Latin code units, where it maps A to Z onto a to z and
  leaves every other code unit as it is. The method also maps letters outside that block
  (U+00C9 to U+00E9, U+212A KELVIN SIGN to k, U+0130 to i followed by U+0307); on a string
  holding such a letter this definition leaves the letter unchanged and so differs from the
  method. The evaluations at concrete inputs below use Basic Latin strings only. The
  general statements about the normalizer use one property of the lower-casing, that it
  neither produces nor removes an asterisk, which the full mapping has as well.
\<close>

definition lowerChar :: "nat \<Rightarrow> nat" where
  "lowerChar c = (if 65 \<le> c \<and> c \<le> 90 then c + 32 else c)"

definition toLowerCase :: "jsstring \<Rightarrow> jsstring" where
  "toLowerCase s = map lowerChar s"

text \<open>\<^verbatim>\<open>s.includes(t)\<close>: \<open>t\<close> occurs in \<open>s\<close> as a contiguous run.\<close>

fun js_includes :: "jsstring \<Rightarrow> jsstring \<Rightarrow> bool" where
  "js_includes [] t = (t = [])"
| "js_includes (x # xs) t = (prefix t (x # xs) \<or> js_includes xs t)"

definition trim :: "jsstring \<Rightarrow> jsstring" where
  "trim s = rev (dropWhile isWhiteSpace (rev (dropWhile isWhiteSpace s)))"

section \<open>The ingredient normalizer\<close>

subsection \<open>Regular-expression stages\<close>

text \<open>
  \<^verbatim>\<open>.replace(/\(.*?\)/g, "")\<close>: at an opening parenthesis the lazy \<^verbatim>\<open>.*?\<close> runs over
  characters other than line terminators up to the first closing parenthesis; when a line
  terminator or the end of the string comes first there is no match at this position and
  the parenthesis stays.
\<close>

function removeParens :: "jsstring \<Rightarrow> jsstring" where
  "removeParens [] = []"
| "removeParens (x # xs) =
     (if x = 40 then
        (case dropWhile (\<lambda>c. c \<noteq> 41 \<and> \<not> isLineTerminator c) xs of
           [] \<Rightarrow> x # removeParens xs
         | y # r \<Rightarrow> if y = 41 then removeParens r else x # removeParens xs)
      else x # removeParens xs)"
  by pat_completeness auto
termination
proof (relation "measure length")
  fix x :: nat and xs y r
  assume "dropWhile (\<lambda>c. c \<noteq> 41 \<and> \<not> isLineTerminator c) xs = y # r"
  then have "length (y # r) \<le> length xs"
    by (metis length_dropWhile_le)
  then show "(r, x # xs) \<in> measure length" by simp
qed simp_all

text \<open>\<^verbatim>\<open>.split(",")[0]\<close>: the part before the first comma.\<close>

definition beforeComma :: "jsstring \<Rightarrow> jsstring" where
  "beforeComma s = takeWhile (\<lambda>c. c \<noteq> 44) s"

text \<open>
  The character class \<^verbatim>\<open>[\d...]\<close> of the third generation: the ASCII digits and the fifteen
  vulgar-fraction glyphs U+00BC..U+00BE and U+2153..U+215E.
\<close>

definition isQuantityChar :: "nat \<Rightarrow> bool" where
  "isQuantityChar c = (isDigit c \<or> (188 \<le> c \<and> c \<le> 190) \<or> (8531 \<le> c \<and> c \<le> 8542))"

definition stripQuantityChars :: "jsstring \<Rightarrow> jsstring" where
  "stripQuantityChars s = filter (\<lambda>c. \<not> isQuantityChar c) s"

text \<open>
  An alternation \<^verbatim>\<open>(u1|u2|...)\<close> under the \<^verbatim>\<open>i\<close> flag: the first alternative, in the
  order written, that the input starts with (compared on lower-cased letters).
\<close>

fun firstAlt :: "jsstring list \<Rightarrow> jsstring \<Rightarrow> jsstring option" where
  "firstAlt [] s = None"
| "firstAlt (u # us) s = (if prefix u (map lowerChar s) then Some u else firstAlt us s)"

definition units3 :: "jsstring list" where
  "units3 = map js [''g'', ''kg'', ''ml'', ''l'', ''oz'', ''lb'', ''tbsp'', ''tsp'', ''cup'',
     ''cups'', ''pinch'', ''handful'', ''clove'', ''large'', ''medium'', ''small'', ''can'',
     ''cans'']"

text \<open>
  \<^verbatim>\<open>.replace(/\s*(g|kg|...|cans)\s*/gi, " ")\<close>. At a position the greedy \<^verbatim>\<open>\s*\<close> takes the
  white space there and a unit has to follow; giving white space back cannot help, since no
  unit starts with white space. A match is replaced by one space and the scan goes on
  behind it; without a match the character is kept. The pattern has no word boundary.
\<close>

function stripUnits :: "jsstring \<Rightarrow> jsstring" where
  "stripUnits [] = []"
| "stripUnits (x # xs) =
     (case firstAlt units3 (dropWhile isWhiteSpace (x # xs)) of
        None \<Rightarrow> x # stripUnits xs
      | Some u \<Rightarrow>
          32 # stripUnits (dropWhile isWhiteSpace
                 (drop (length u) (dropWhile isWhiteSpace (x # xs)))))"
  by pat_completeness auto
termination
proof (relation "measure length")
  fix x :: nat and xs u
  assume a: "firstAlt units3 (dropWhile isWhiteSpace (x # xs)) = Some u"
  let ?ys = "dropWhile isWhiteSpace (x # xs)"
  have alt: "\<And>us s. firstAlt us s = Some u \<Longrightarrow> u \<in> set us \<and> prefix u (map lowerChar s)"
  proof -
    fix us s show "firstAlt us s = Some u \<Longrightarrow> u \<in> set us \<and> prefix u (map lowerChar s)"
      by (induction us) (auto split: if_splits)
  qed
  from alt [OF a] have u: "u \<in> set units3" and p: "prefix u (map lowerChar ?ys)" by simp_all
  from u have "u \<noteq> []" by (auto simp: units3_def js_def)
  have "\<And>zs. prefix u (map lowerChar zs) \<Longrightarrow> zs \<noteq> []"
    using \<open>u \<noteq> []\<close> by auto
  from this [OF p] have "?ys \<noteq> []" .
  with \<open>u \<noteq> []\<close> have "length (drop (length u) ?ys) < length ?ys" by simp
  moreover have "length ?ys \<le> length (x # xs)" by (rule length_dropWhile_le)
  moreover have "length (dropWhile isWhiteSpace (drop (length u) ?ys)) \<le> length (drop (length u) ?ys)"
    by (rule length_dropWhile_le)
  ultimately show "(dropWhile isWhiteSpace (drop (length u) ?ys), x # xs) \<in> measure length"
    by simp
qed simp_all

text \<open>\<^verbatim>\<open>.replace(/[*]/g, "")\<close>.\<close>

definition stripAsterisks :: "jsstring \<Rightarrow> jsstring" where
  "stripAsterisks s = filter (\<lambda>c. c \<noteq> 42) s"

text \<open>\<^verbatim>\<open>.replace(/\s+/g, " ")\<close>: every maximal run of white space becomes one space.\<close>

function collapseWhiteSpace :: "jsstring \<Rightarrow> jsstring" where
  "collapseWhiteSpace [] = []"
| "collapseWhiteSpace (x # xs) =
     (if isWhiteSpace x then 32 # collapseWhiteSpace (dropWhile isWhiteSpace xs)
      else x # collapseWhiteSpace xs)"
  by pat_completeness auto
termination
proof (relation "measure length")
  fix x :: nat and xs
  have "length (dropWhile isWhiteSpace xs) \<le> length xs" by (rule length_dropWhile_le)
  then show "(dropWhile isWhiteSpace xs, x # xs) \<in> measure length" by simp
qed simp_all

subsection \<open>extractIngredientNames, third generation (src/unnamed/part_001)\<close>

definition cleanIngredient_p1 :: "jsstring \<Rightarrow> jsstring" where
  "cleanIngredient_p1 ingredient =
     (let cleaned = toLowerCase ingredient;
          cleaned = beforeComma (removeParens cleaned);
          cleaned = stripAsterisks (stripUnits (stripQuantityChars cleaned))
      in collapseWhiteSpace (trim cleaned))"

definition extractIngredientNames_p1 :: "jsstring list \<Rightarrow> jsstring list" where
  "extractIngredientNames_p1 ingredients =
     filter (\<lambda>s. s \<noteq> []) (map cleanIngredient_p1 ingredients)"

section \<open>JavaScript numbers\<close>

text \<open>
  A finite Number is modelled by the rational it denotes. \<open>toDouble\<close> rounds a rational to
  the nearest binary64 value, ties to even, for values in the normal range
  (\<open>2 powi -1022 \<le> \<bar>x\<bar> < 2 powi 1024\<close>, which holds all quotients of array lengths):
  with \<open>2 powi e \<le> \<bar>x\<bar> < 2 powi (e + 1)\<close> the significand \<open>x * 2 powi (52 - e)\<close> is rounded
  to an integer. The exponent \<open>e\<close> is the bit length of the integer part less one, or, below
  one, the negated bit length of \<open>\<lceil>1 / x\<rceil> - 1\<close>.
\<close>

function bitLength :: "int \<Rightarrow> nat" where
  "bitLength n = (if n \<le> 0 then 0 else Suc (bitLength (n div 2)))"
  by pat_completeness auto
termination
  by (relation "measure nat") auto

declare bitLength.simps [simp del]

definition binade :: "rat \<Rightarrow> int" where
  "binade x =
     (if 1 \<le> x then int (bitLength \<lfloor>x\<rfloor>) - 1 else - int (bitLength (\<lceil>1 / x\<rceil> - 1)))"

definition roundTiesToEven :: "rat \<Rightarrow> int" where
  "roundTiesToEven t =
     (let f = \<lfloor>t\<rfloor>; r = t - of_int f
      in if r < 1 / 2 then f else if 1 / 2 < r then f + 1 else if even f then f else f + 1)"

definition toDouble :: "rat \<Rightarrow> rat" where
  "toDouble x =
     (if x = 0 then 0
      else let e = binade \<bar>x\<bar>
           in of_int (roundTiesToEven (x * 2 powi (52 - e))) * 2 powi (e - 52))"

text \<open>The operators \<^verbatim>\<open>/\<close> and \<^verbatim>\<open>*\<close> on Numbers, and \<^verbatim>\<open>Math.round\<close> (ties go up).\<close>

definition js_divide :: "rat \<Rightarrow> rat \<Rightarrow> rat" where
  "js_divide a b = toDouble (a / b)"

definition js_times :: "rat \<Rightarrow> rat \<Rightarrow> rat" where
  "js_times a b = toDouble (a * b)"

definition Math_round :: "rat \<Rightarrow> int" where
  "Math_round x = \<lfloor>x + 1 / 2\<rfloor>"

section \<open>Data model\<close>

text \<open>
  A row of the Recipe table, with the columns the matching engine reads, and the optional
  query filters. An absent (undefined or null) filter field is \<open>None\<close>.
\<close>

record recipeRow =
  recipeId :: int
  recipeName :: jsstring
  ingredients :: "jsstring list"
  vegan :: bool
  categories :: "jsstring list"

record recipeFilters =
  filter_vegan :: "bool option"
  filter_categories :: "jsstring list option"

text \<open>
  The object built per candidate by the percentage scorers. The third generation leaves
  both counts out of the object it returns for a recipe without normalized ingredients.
\<close>

record matchResult =
  recipe :: recipeRow
  matchPercentage :: int
  matchingIngredientsCount :: "nat option"
  totalIngredientsCount :: "nat option"
  missingIngredients :: "jsstring list"

datatype graphQLError = GraphQLError jsstring

subsection \<open>buildPrismaWhereClause\<close>

text \<open>The conjuncts of \<^verbatim>\<open>{ AND: conditions }\<close>; the empty clause \<^verbatim>\<open>{}\<close> is the empty list.\<close>

datatype whereCondition = VeganIs bool | CategoriesHasSome "jsstring list"

definition buildPrismaWhereClause :: "recipeFilters option \<Rightarrow> whereCondition list" where
  "buildPrismaWhereClause filters =
     (case filters of
        None \<Rightarrow> []
      | Some f \<Rightarrow>
          (case filter_vegan f of Some b \<Rightarrow> [VeganIs b] | None \<Rightarrow> []) @
          (case filter_categories f of
             Some cs \<Rightarrow> if length cs > 0 then [CategoriesHasSome cs] else []
           | None \<Rightarrow> []))"

subsection \<open>The store\<close>

text \<open>
  Modelled from the spec: the persistence client (\<^verbatim>\<open>prisma\<close>, imported from \<^verbatim>\<open>../db\<close>) is not
  among the sources. Section 6 of the specification gives its interface: \<^verbatim>\<open>findMany\<close>
  returns the rows that satisfy a conjunction of field-equality and set-intersection
  conditions, the text-relevance search returns at most \<open>limit\<close> rows with their scores, and
  a store that is unreachable fails the call with a message. \<open>fullText\<close> stands for the
  answer of the database to the raw text-search statement. \<open>queries\<close> counts the calls.
\<close>

record store =
  rows :: "recipeRow list"
  fullText :: "jsstring \<Rightarrow> (recipeRow \<times> rat) list"
  failure :: "jsstring option"
  queries :: nat

text \<open>
  Modelled from the spec: how the store reads one condition (\<^verbatim>\<open>vegan\<close> by equality,
  \<^verbatim>\<open>hasSome\<close> as at least one shared category).
\<close>

fun satisfies :: "recipeRow \<Rightarrow> whereCondition \<Rightarrow> bool" where
  "satisfies r (VeganIs b) = (vegan r = b)"
| "satisfies r (CategoriesHasSome cs) = list_ex (\<lambda>c. c \<in> set (categories r)) cs"

text \<open>
  Modelled from the spec: \<^verbatim>\<open>prisma.recipe.findMany({ where })\<close>, one query that fails with the
  store's message or returns the rows satisfying every condition, in table order.
\<close>

definition findMany :: "whereCondition list \<Rightarrow> store \<Rightarrow> (jsstring + recipeRow list) \<times> store" where
  "findMany wh st =
     (case failure st of
        Some msg \<Rightarrow> (Inl msg, st\<lparr>queries := queries st + 1\<rparr>)
      | None \<Rightarrow> (Inr (filter (\<lambda>r. list_all (satisfies r) wh) (rows st)),
                 st\<lparr>queries := queries st + 1\<rparr>))"

text \<open>
  Modelled from the spec: the raw text-relevance statement (\<^verbatim>\<open>prisma.$queryRaw\<close> with
  \<^verbatim>\<open>LIMIT\<close>), one query that fails or returns at most \<open>limit\<close> ranked rows.
\<close>

definition textRelevanceSearch ::
  "jsstring \<Rightarrow> nat \<Rightarrow> store \<Rightarrow> (jsstring + (recipeRow \<times> rat) list) \<times> store" where
  "textRelevanceSearch searchTerms limit st =
     (case failure st of
        Some msg \<Rightarrow> (Inl msg, st\<lparr>queries := queries st + 1\<rparr>)
      | None \<Rightarrow> (Inr (take limit (fullText st searchTerms)), st\<lparr>queries := queries st + 1\<rparr>))"

text \<open>The \<^verbatim>\<open>catch\<close> block of the later generations: one error kind, carrying the message.\<close>

definition databaseQueryFailed :: "jsstring \<Rightarrow> graphQLError" where
  "databaseQueryFailed msg = GraphQLError (js ''Database query failed: '' @ msg)"

section \<open>Array operations\<close>

text \<open>
  \<^verbatim>\<open>Array.prototype.sort(cmp)\<close> is a stable sort (ECMAScript 2019): an element is placed before
  the first later element that the comparator does not put ahead of it.
\<close>

fun insertBy :: "('a \<Rightarrow> 'a \<Rightarrow> int) \<Rightarrow> 'a \<Rightarrow> 'a list \<Rightarrow> 'a list" where
  "insertBy cmp x [] = [x]"
| "insertBy cmp x (y # ys) = (if cmp x y \<le> 0 then x # y # ys else y # insertBy cmp x ys)"

definition js_sort :: "('a \<Rightarrow> 'a \<Rightarrow> int) \<Rightarrow> 'a list \<Rightarrow> 'a list" where
  "js_sort cmp xs = foldr (insertBy cmp) xs []"

text \<open>\<^verbatim>\<open>xs.slice(0, end)\<close>: a negative \<open>end\<close> counts from the end of the array.\<close>

definition js_slice0 :: "int \<Rightarrow> 'a list \<Rightarrow> 'a list" where
  "js_slice0 end' xs =
     (if end' < 0 then take (nat (int (length xs) + end')) xs else take (nat end') xs)"

fun js_join :: "jsstring \<Rightarrow> jsstring list \<Rightarrow> jsstring" where
  "js_join sep [] = []"
| "js_join sep [x] = x"
| "js_join sep (x # y # ys) = x @ sep @ js_join sep (y # ys)"

section \<open>Third generation of the resolvers (src/unnamed/part_001)\<close>

text \<open>
  Every resolver awaits \<^verbatim>\<open>findMany\<close> once and works on the rows in memory; a failing store
  call is caught and raised again as one error kind (the \<^verbatim>\<open>console.error\<close> line is left out).
\<close>

subsection \<open>recipesWithExactIngredients\<close>

definition exactMatch_p1 :: "jsstring list \<Rightarrow> recipeRow \<Rightarrow> bool" where
  "exactMatch_p1 availableLower r =
     (let required = extractIngredientNames_p1 (ingredients r)
      in if length required = 0 then False
         else list_all (\<lambda>req. list_ex (\<lambda>avail. js_includes req avail) availableLower) required)"

definition recipesWithExactIngredients_p1 ::
  "jsstring list \<Rightarrow> recipeFilters option \<Rightarrow> store \<Rightarrow> (graphQLError + recipeRow list) \<times> store" where
  "recipesWithExactIngredients_p1 availableIngredients filters st =
     (case findMany (buildPrismaWhereClause filters) st of
        (Inl msg, st') \<Rightarrow> (Inl (databaseQueryFailed msg), st')
      | (Inr candidateRecipes, st') \<Rightarrow>
          (let availableLower = map toLowerCase availableIngredients
           in (Inr (filter (exactMatch_p1 availableLower) candidateRecipes), st')))"

subsection \<open>recipesByIngredientMatch\<close>

definition scoreRecipe_p1 :: "jsstring list \<Rightarrow> recipeRow \<Rightarrow> matchResult" where
  "scoreRecipe_p1 availableIngredients r =
     (let required = extractIngredientNames_p1 (ingredients r)
      in if length required = 0 then
           \<lparr>recipe = r, matchPercentage = 0, matchingIngredientsCount = None,
            totalIngredientsCount = None, missingIngredients = required\<rparr>
         else
           (let availableLower = map toLowerCase availableIngredients;
                missing = filter (\<lambda>req. \<not> list_ex (\<lambda>avail. js_includes req avail) availableLower)
                            required;
                matchingCount = length required - length missing;
                matchPercentage =
                  js_times (js_divide (of_nat matchingCount) (of_nat (length required))) 100
            in \<lparr>recipe = r, matchPercentage = Math_round matchPercentage,
                matchingIngredientsCount = Some matchingCount,
                totalIngredientsCount = Some (length required),
                missingIngredients = missing\<rparr>))"

text \<open>
  The ranking stage shared by all generations:
  \<^verbatim>\<open>.filter((r) => r.matchPercentage >= minMatchPercentage)
   .sort((a, b) => b.matchPercentage - a.matchPercentage)\<close>.
\<close>

definition rankResults :: "rat \<Rightarrow> matchResult list \<Rightarrow> matchResult list" where
  "rankResults minMatchPercentage recipesWithScores =
     js_sort (\<lambda>a b. matchPercentage b - matchPercentage a)
       (filter (\<lambda>r. minMatchPercentage \<le> of_int (matchPercentage r)) recipesWithScores)"

definition recipesByIngredientMatch_p1 ::
  "jsstring list \<Rightarrow> rat \<Rightarrow> recipeFilters option \<Rightarrow> store
     \<Rightarrow> (graphQLError + matchResult list) \<times> store" where
  "recipesByIngredientMatch_p1 availableIngredients minMatchPercentage filters st =
     (case findMany (buildPrismaWhereClause filters) st of
        (Inl msg, st') \<Rightarrow> (Inl (databaseQueryFailed msg), st')
      | (Inr candidateRecipes, st') \<Rightarrow>
          (Inr (rankResults minMatchPercentage
                  (map (scoreRecipe_p1 availableIngredients) candidateRecipes)), st'))"

subsection \<open>recipesWithFullTextSearch\<close>

text \<open>
  \<^verbatim>\<open>veganMatch = !filters?.vegan || recipe.vegan === filters.vegan\<close> and
  \<^verbatim>\<open>categoryMatch = !filters?.categories || filters.categories.some(...)\<close>: the negation is
  true of an absent field and of \<^verbatim>\<open>false\<close>; an array, also the empty one, is truthy.
\<close>

definition veganMatch_p1 :: "recipeFilters option \<Rightarrow> recipeRow \<Rightarrow> bool" where
  "veganMatch_p1 filters r =
     (case filters of
        None \<Rightarrow> True
      | Some f \<Rightarrow> (case filter_vegan f of None \<Rightarrow> True | Some b \<Rightarrow> \<not> b \<or> vegan r = b))"

definition categoryMatch_p1 :: "recipeFilters option \<Rightarrow> recipeRow \<Rightarrow> bool" where
  "categoryMatch_p1 filters r =
     (case filters of
        None \<Rightarrow> True
      | Some f \<Rightarrow>
          (case filter_categories f of
             None \<Rightarrow> True
           | Some cs \<Rightarrow> list_ex (\<lambda>cat. cat \<in> set (categories r)) cs))"

definition recipesWithFullTextSearch_p1 ::
  "jsstring list \<Rightarrow> recipeFilters option \<Rightarrow> store
     \<Rightarrow> (graphQLError + (recipeRow \<times> rat) list) \<times> store" where
  "recipesWithFullTextSearch_p1 availableIngredients filters st =
     (if length availableIngredients = 0 then (Inr [], st)
      else
        (let searchTerms = js_join (js '' | '') availableIngredients
         in case textRelevanceSearch searchTerms 100 st of
              (Inl msg, st') \<Rightarrow> (Inl (databaseQueryFailed msg), st')
            | (Inr results, st') \<Rightarrow>
                (Inr (filter (\<lambda>row. veganMatch_p1 filters (fst row) \<and>
                                    categoryMatch_p1 filters (fst row)) results), st')))"

subsection \<open>quickRecipeSuggestions\<close>

text \<open>\<^verbatim>\<open>limit || 10\<close>: an absent limit and the limit 0 both give 10.\<close>

definition limitOrDefault :: "int option \<Rightarrow> int" where
  "limitOrDefault limit = (case limit of None \<Rightarrow> 10 | Some l \<Rightarrow> if l = 0 then 10 else l)"

definition quickMatch_p1 :: "jsstring list \<Rightarrow> recipeRow \<Rightarrow> bool" where
  "quickMatch_p1 availableLower r =
     list_ex (\<lambda>ing. list_ex (\<lambda>avail. js_includes ing avail) availableLower)
       (extractIngredientNames_p1 (ingredients r))"

definition quickRecipeSuggestions_p1 ::
  "jsstring list \<Rightarrow> int option \<Rightarrow> recipeFilters option \<Rightarrow> store
     \<Rightarrow> (graphQLError + recipeRow list) \<times> store" where
  "quickRecipeSuggestions_p1 availableIngredients limit filters st =
     (case findMany (buildPrismaWhereClause filters) st of
        (Inl msg, st') \<Rightarrow> (Inl (databaseQueryFailed msg), st')
      | (Inr candidateRecipes, st') \<Rightarrow>
          (let availableLower = map toLowerCase availableIngredients
           in (Inr (js_slice0 (limitOrDefault limit)
                      (filter (quickMatch_p1 availableLower) candidateRecipes)), st')))"

section \<open>First generation (src/lib/graphql/resolvers.ts)\<close>

subsection \<open>extractIngredientNames\<close>

definition units1 :: "jsstring list" where
  "units1 = map js [''g'', ''kg'', ''ml'', ''l'', ''oz'', ''lb'', ''tbsp'', ''tsp'', ''cup'',
     ''cups'', ''pinch'', ''handful'']"

definition units1b :: "jsstring list" where
  "units1b = map js [''g'', ''kg'', ''ml'', ''l'', ''oz'', ''lb'']"

text \<open>The optional group \<^verbatim>\<open>(\.\d+)?\<close>: a dot followed by at least one digit.\<close>

definition dropDecimals :: "jsstring \<Rightarrow> jsstring" where
  "dropDecimals s =
     (case s of
        [] \<Rightarrow> s
      | c # t \<Rightarrow> if c = 46 \<and> takeWhile isDigit t \<noteq> [] then dropWhile isDigit t else s)"

text \<open>
  \<^verbatim>\<open>.replace(/^\d+(\.\d+)?\s*(g|...|handful)\s*\/?\s*\d*\s*(g|kg|ml|l|oz|lb)?\s*/i, "")\<close>.
  The pattern is anchored at the start and needs digits and then a unit; everything
  behind the unit is optional and greedy. Without a match the line stays as it is.
\<close>

definition stripLeadingQuantity_lib :: "jsstring \<Rightarrow> jsstring" where
  "stripLeadingQuantity_lib s =
     (if takeWhile isDigit s = [] then s
      else
        (let r = dropWhile isWhiteSpace (dropDecimals (dropWhile isDigit s))
         in case firstAlt units1 r of
              None \<Rightarrow> s
            | Some u \<Rightarrow>
                (let r = dropWhile isWhiteSpace (drop (length u) r);
                     r = (case r of [] \<Rightarrow> r | c # t \<Rightarrow> if c = 47 then t else r);
                     r = dropWhile isWhiteSpace r;
                     r = dropWhile isDigit r;
                     r = dropWhile isWhiteSpace r;
                     r = (case firstAlt units1b r of None \<Rightarrow> r | Some v \<Rightarrow> drop (length v) r)
                 in dropWhile isWhiteSpace r)))"

text \<open>\<^verbatim>\<open>.replace(/^\d+\s*/, "")\<close>.\<close>

definition stripLeadingDigits :: "jsstring \<Rightarrow> jsstring" where
  "stripLeadingDigits s =
     (if takeWhile isDigit s = [] then s else dropWhile isWhiteSpace (dropWhile isDigit s))"

text \<open>
  \<^verbatim>\<open>.replace(/,.*$/, "")\<close>: without the \<^verbatim>\<open>m\<close> flag \<^verbatim>\<open>$\<close> is the end of the string, which
  \<^verbatim>\<open>.*\<close> reaches only when no line terminator follows; the first such comma and all behind
  it are removed.
\<close>

fun cutFromComma :: "jsstring \<Rightarrow> jsstring" where
  "cutFromComma [] = []"
| "cutFromComma (x # xs) =
     (if x = 44 \<and> \<not> list_ex isLineTerminator xs then [] else x # cutFromComma xs)"

definition cleanIngredient_lib :: "jsstring \<Rightarrow> jsstring" where
  "cleanIngredient_lib ingredient =
     (let cleaned = trim (removeParens (cutFromComma (stripLeadingDigits
                      (stripLeadingQuantity_lib (toLowerCase ingredient)))))
      in if cleaned = [] then toLowerCase ingredient else cleaned)"

definition extractIngredientNames_lib :: "jsstring list \<Rightarrow> jsstring list" where
  "extractIngredientNames_lib ingredientList =
     filter (\<lambda>s. length s > 0) (map cleanIngredient_lib ingredientList)"

subsection \<open>The in-memory parts of the resolvers, on the rows \<^verbatim>\<open>findMany\<close> returned\<close>

definition recipesWithExactIngredients_lib :: "jsstring list \<Rightarrow> recipeRow list \<Rightarrow> recipeRow list" where
  "recipesWithExactIngredients_lib availableIngredients allRecipes =
     filter (\<lambda>r. list_all (\<lambda>recipeIngredient.
                    list_ex (\<lambda>available.
                      js_includes (toLowerCase recipeIngredient) (toLowerCase available))
                      availableIngredients)
                  (ingredients r))
       allRecipes"

definition scoreRecipe_lib :: "jsstring list \<Rightarrow> recipeRow \<Rightarrow> matchResult" where
  "scoreRecipe_lib availableIngredients r =
     (let recipeIngredients = extractIngredientNames_lib (ingredients r);
          missing = filter (\<lambda>ingredient.
                      \<not> list_ex (\<lambda>available.
                          js_includes (toLowerCase ingredient) (toLowerCase available) \<or>
                          js_includes (toLowerCase available) (toLowerCase ingredient))
                          availableIngredients)
                      recipeIngredients;
          matchingCount = length recipeIngredients - length missing;
          matchPercentage =
            (if length recipeIngredients > 0
             then js_times (js_divide (of_nat matchingCount) (of_nat (length recipeIngredients))) 100
             else 0)
      in \<lparr>recipe = r, matchPercentage = Math_round matchPercentage,
          matchingIngredientsCount = Some matchingCount,
          totalIngredientsCount = Some (length recipeIngredients),
          missingIngredients = missing\<rparr>)"

definition recipesByIngredientMatch_lib ::
  "jsstring list \<Rightarrow> rat \<Rightarrow> recipeRow list \<Rightarrow> matchResult list" where
  "recipesByIngredientMatch_lib availableIngredients minMatchPercentage allRecipes =
     rankResults minMatchPercentage (map (scoreRecipe_lib availableIngredients) allRecipes)"

text \<open>
  The filter pass of \<^verbatim>\<open>recipesWithFullTextSearch\<close>: it runs only when \<^verbatim>\<open>filters\<close> is given,
  tests \<^verbatim>\<open>typeof filters.vegan !== "boolean"\<close> and lets an empty category list pass.
\<close>

definition fullTextFilter_lib ::
  "recipeFilters option \<Rightarrow> (recipeRow \<times> rat) list \<Rightarrow> (recipeRow \<times> rat) list" where
  "fullTextFilter_lib filters results =
     (case filters of
        None \<Rightarrow> results
      | Some f \<Rightarrow>
          filter (\<lambda>row.
            (let veganMatch = (case filter_vegan f of None \<Rightarrow> True
                               | Some b \<Rightarrow> vegan (fst row) = b);
                 categoryMatch = (case filter_categories f of None \<Rightarrow> True
                                  | Some cs \<Rightarrow> length cs = 0 \<or>
                                      list_ex (\<lambda>cat. cat \<in> set (categories (fst row))) cs)
             in veganMatch \<and> categoryMatch)) results)"

section \<open>Second generation (src/unnamed/part_000)\<close>

definition units2 :: "jsstring list" where
  "units2 = map js [''g'', ''kg'', ''ml'', ''l'', ''oz'', ''lb'', ''tbsp'', ''tsp'', ''cup'',
     ''cups'', ''pinch'', ''handful'', ''clove'', ''large'', ''medium'', ''small'']"

text \<open>
  \<^verbatim>\<open>.replace(/^\d+(\.\d+)?\s*(g|...|small)?\s*/i, "")\<close>: leading digits, then an optional unit.
\<close>

definition stripLeadingQuantity_p0 :: "jsstring \<Rightarrow> jsstring" where
  "stripLeadingQuantity_p0 s =
     (if takeWhile isDigit s = [] then s
      else
        (let r = dropWhile isWhiteSpace (dropDecimals (dropWhile isDigit s));
             r = (case firstAlt units2 r of None \<Rightarrow> r | Some u \<Rightarrow> drop (length u) r)
         in dropWhile isWhiteSpace r))"

definition cleanIngredient_p0 :: "jsstring \<Rightarrow> jsstring" where
  "cleanIngredient_p0 ingredient =
     trim (beforeComma (removeParens (stripLeadingQuantity_p0 (toLowerCase ingredient))))"

definition extractIngredientNames_p0 :: "jsstring list \<Rightarrow> jsstring list" where
  "extractIngredientNames_p0 ingredientList =
     filter (\<lambda>s. s \<noteq> []) (map cleanIngredient_p0 ingredientList)"

text \<open>
  recipesByIngredientMatch of the second generation: an empty availableIngredients list
  returns before the store is asked (\<^verbatim>\<open>// Handle empty ingredients array\<close>).
\<close>

definition scoreRecipe_p0 :: "jsstring list \<Rightarrow> recipeRow \<Rightarrow> matchResult" where
  "scoreRecipe_p0 availableIngredients r =
     (let required = extractIngredientNames_p0 (ingredients r)
      in if length required = 0 then
           \<lparr>recipe = r, matchPercentage = 0, matchingIngredientsCount = Some 0,
            totalIngredientsCount = Some 0, missingIngredients = []\<rparr>
         else
           (let availableLower = map toLowerCase availableIngredients;
                missing = filter (\<lambda>req. \<not> list_ex (\<lambda>avail. js_includes req avail) availableLower)
                            required;
                matchingCount = length required - length missing;
                matchPercentage =
                  js_times (js_divide (of_nat matchingCount) (of_nat (length required))) 100
            in \<lparr>recipe = r, matchPercentage = Math_round matchPercentage,
                matchingIngredientsCount = Some matchingCount,
                totalIngredientsCount = Some (length required),
                missingIngredients = missing\<rparr>))"

definition recipesByIngredientMatch_p0 ::
  "jsstring list \<Rightarrow> rat \<Rightarrow> recipeFilters option \<Rightarrow> store
     \<Rightarrow> (graphQLError + matchResult list) \<times> store" where
  "recipesByIngredientMatch_p0 availableIngredients minMatchPercentage filters st =
     (if length availableIngredients = 0 then (Inr [], st)
      else
        (case findMany (buildPrismaWhereClause filters) st of
           (Inl msg, st') \<Rightarrow> (Inl (databaseQueryFailed msg), st')
         | (Inr candidateRecipes, st') \<Rightarrow>
             (Inr (rankResults minMatchPercentage
                     (map (scoreRecipe_p0 availableIngredients) candidateRecipes)), st')))"

section \<open>The percentage, in the code and in the specification\<close>

text \<open>
  The expression of the scorers, \<^verbatim>\<open>Math.round((matchingCount / required.length) * 100)\<close>
  with its guard for an empty list, under one name for the lemmas about it.
\<close>

definition js_matchPercentage :: "nat \<Rightarrow> nat \<Rightarrow> int" where
  "js_matchPercentage matchingCount totalCount =
     (if totalCount > 0
      then Math_round (js_times (js_divide (of_nat matchingCount) (of_nat totalCount)) 100)
      else 0)"


section \<open>Whole words\<close>

text \<open>
  A word character is what \<^verbatim>\<open>\w\<close> matches: an ASCII letter, an ASCII digit or the
  underscore. \<open>wordAt u s\<close>: \<open>s\<close> starts with \<open>u\<close> and no word character follows.
  \<open>containsWord b u s\<close>: \<open>u\<close> stands somewhere in \<open>s\<close> with no word character before it
  and none behind it, where \<open>b\<close> tells whether the start of \<open>s\<close> may begin a word.
\<close>

definition isWordChar :: "nat \<Rightarrow> bool" where
  "isWordChar c = ((65 \<le> c \<and> c \<le> 90) \<or> (97 \<le> c \<and> c \<le> 122) \<or> isDigit c \<or> c = 95)"

definition wordAt :: "jsstring \<Rightarrow> jsstring \<Rightarrow> bool" where
  "wordAt u s =
     (prefix u s \<and> (case drop (length u) s of [] \<Rightarrow> True | c # rest \<Rightarrow> \<not> isWordChar c))"

fun containsWord :: "bool \<Rightarrow> jsstring \<Rightarrow> jsstring \<Rightarrow> bool" where
  "containsWord b u [] = (b \<and> wordAt u [])"
| "containsWord b u (x # xs) =
     ((b \<and> wordAt u (x # xs)) \<or> containsWord (\<not> isWordChar x) u xs)"

definition occursAsWord :: "jsstring \<Rightarrow> jsstring \<Rightarrow> bool" where
  "occursAsWord u s = containsWord True u s"

section \<open>Sample data\<close>

definition mkRecipe :: "int \<Rightarrow> jsstring list \<Rightarrow> recipeRow" where
  "mkRecipe i ings =
     \<lparr>recipeId = i, recipeName = [], ingredients = ings, vegan = False, categories = []\<rparr>"

definition mkResult :: "int \<Rightarrow> int \<Rightarrow> matchResult" where
  "mkResult i p =
     \<lparr>recipe = mkRecipe i [], matchPercentage = p, matchingIngredientsCount = None,
      totalIngredientsCount = None, missingIngredients = []\<rparr>"

definition mkStore :: "recipeRow list \<Rightarrow> store" where
  "mkStore rs = \<lparr>rows = rs, fullText = (\<lambda>q. map (\<lambda>r. (r, 1)) rs), failure = None, queries = 0\<rparr>"

section \<open>Ranking and thresholding\<close>

lemma insertBy_desc:
  fixes f :: "'a \<Rightarrow> int"
  shows "insertBy (\<lambda>a b. f b - f a) x ys = insort_key (\<lambda>r. - f r) x ys"
  by (induction ys) auto

lemma js_sort_desc:
  fixes f :: "'a \<Rightarrow> int"
  shows "js_sort (\<lambda>a b. f b - f a) xs = sort_key (\<lambda>r. - f r) xs"
  by (induction xs) (simp_all add: js_sort_def sort_key_def insertBy_desc)

lemma rankResults_sort_key:
  "rankResults m rs =
     sort_key (\<lambda>r. - matchPercentage r) (filter (\<lambda>r. m \<le> of_int (matchPercentage r)) rs)"
  by (simp add: rankResults_def js_sort_desc)

lemma mkResult_sel [simp]: "matchPercentage (mkResult i p) = p"
  by (simp add: mkResult_def)

lemma mkResult_eq [simp]: "(mkResult i p = mkResult j q) = (i = j \<and> p = q)"
  by (auto simp: mkResult_def mkRecipe_def)

text \<open>
  C5. The ranking stage returns exactly the entries whose matchPercentage is at least
  minMatchPercentage (the same entries with the same multiplicities; the bound is
  inclusive), and its output is sorted non-increasing by matchPercentage.
\<close>

theorem rank_threshold_sorted:
  "mset (rankResults m rs) = mset (filter (\<lambda>r. m \<le> of_int (matchPercentage r)) rs) \<and>
   set (rankResults m rs) = {r \<in> set rs. m \<le> of_int (matchPercentage r)} \<and>
   sorted_wrt (\<lambda>a b. matchPercentage b \<le> matchPercentage a) (rankResults m rs)"
proof -
  let ?kept = "filter (\<lambda>r. m \<le> of_int (matchPercentage r)) rs"
  have "sorted (map (\<lambda>r. - matchPercentage r) (sort_key (\<lambda>r. - matchPercentage r) ?kept))"
    by (rule sorted_sort_key)
  then have "sorted_wrt (\<lambda>a b. matchPercentage b \<le> matchPercentage a)
               (sort_key (\<lambda>r. - matchPercentage r) ?kept)"
    by (simp add: sorted_map)
  then show ?thesis
    by (simp add: rankResults_sort_key)
qed

theorem rank_threshold_sorted_witness:
  "mset (rankResults 50 [mkResult 1 30, mkResult 2 50, mkResult 3 100, mkResult 4 49]) =
     {#mkResult 2 50, mkResult 3 100#} \<and>
   sorted_wrt (\<lambda>a b. matchPercentage b \<le> matchPercentage a)
     (rankResults 50 [mkResult 1 30, mkResult 2 50, mkResult 3 100, mkResult 4 49])"
  using rank_threshold_sorted
    [of 50 "[mkResult 1 30, mkResult 2 50, mkResult 3 100, mkResult 4 49]"]
  by simp

text \<open>
  C10. The sort is stable: for every percentage \<open>k\<close>, the entries with matchPercentage \<open>k\<close>
  stand in the ranked output in the order in which they stand in the input.
\<close>

theorem rank_stable:
  "filter (\<lambda>r. matchPercentage r = k) (rankResults m rs) =
   filter (\<lambda>r. matchPercentage r = k) (filter (\<lambda>r. m \<le> of_int (matchPercentage r)) rs)"
proof -
  have "filter (\<lambda>r. - matchPercentage r = - k) (sort_key (\<lambda>r. - matchPercentage r) xs) =
        filter (\<lambda>r. - matchPercentage r = - k) xs" for xs :: "matchResult list"
    by (rule sort_key_stable)
  then show ?thesis
    by (simp add: rankResults_sort_key)
qed

theorem rank_stable_witness:
  "filter (\<lambda>r. matchPercentage r = 50)
     (rankResults 40 [mkResult 1 50, mkResult 2 100, mkResult 3 50, mkResult 4 30, mkResult 5 50]) =
   [mkResult 1 50, mkResult 3 50, mkResult 5 50]"
  using rank_stable
    [of 50 40 "[mkResult 1 50, mkResult 2 100, mkResult 3 50, mkResult 4 30, mkResult 5 50]"]
  by simp

section \<open>Monotonicity of the matching count\<close>

lemma length_filter_mono:
  "(\<And>x. x \<in> set xs \<Longrightarrow> P x \<Longrightarrow> Q x) \<Longrightarrow> length (filter P xs) \<le> length (filter Q xs)"
  by (induction xs) auto

lemma list_ex_mono_set: "set A \<subseteq> set B \<Longrightarrow> list_ex P A \<Longrightarrow> list_ex P B"
  by (auto simp: list_ex_iff)

lemma missing_p1_mono:
  assumes "set A \<subseteq> set B"
  shows "length (filter (\<lambda>req. \<not> list_ex (\<lambda>avail. js_includes req avail) (map toLowerCase B)) required)
       \<le> length (filter (\<lambda>req. \<not> list_ex (\<lambda>avail. js_includes req avail) (map toLowerCase A)) required)"
proof (rule length_filter_mono)
  fix req
  assume "\<not> list_ex (\<lambda>avail. js_includes req avail) (map toLowerCase B)"
  moreover have "set (map toLowerCase A) \<subseteq> set (map toLowerCase B)"
    using assms by auto
  ultimately show "\<not> list_ex (\<lambda>avail. js_includes req avail) (map toLowerCase A)"
    using list_ex_mono_set by blast
qed

lemma missing_lib_mono:
  assumes "set A \<subseteq> set B"
  shows "length (filter (\<lambda>ingredient. \<not> list_ex (\<lambda>available.
            js_includes (toLowerCase ingredient) (toLowerCase available) \<or>
            js_includes (toLowerCase available) (toLowerCase ingredient)) B) required)
       \<le> length (filter (\<lambda>ingredient. \<not> list_ex (\<lambda>available.
            js_includes (toLowerCase ingredient) (toLowerCase available) \<or>
            js_includes (toLowerCase available) (toLowerCase ingredient)) A) required)"
  by (rule length_filter_mono) (use assms list_ex_mono_set in blast)

text \<open>
  C7. For a fixed recipe and available lists \<open>A\<close>, \<open>B\<close> with every element of \<open>A\<close> in \<open>B\<close>,
  the matching count scored against \<open>B\<close> is at least the one scored against \<open>A\<close> (and the
  list of missing ingredients is no longer), in the third and in the first generation.
  Where the third generation leaves the count out (no normalized ingredient), it does so
  for both lists.
\<close>

theorem matchingCount_mono:
  assumes "set A \<subseteq> set B"
  shows "rel_option (\<le>) (matchingIngredientsCount (scoreRecipe_p1 A r))
                        (matchingIngredientsCount (scoreRecipe_p1 B r)) \<and>
         length (missingIngredients (scoreRecipe_p1 B r))
           \<le> length (missingIngredients (scoreRecipe_p1 A r)) \<and>
         rel_option (\<le>) (matchingIngredientsCount (scoreRecipe_lib A r))
                        (matchingIngredientsCount (scoreRecipe_lib B r)) \<and>
         length (missingIngredients (scoreRecipe_lib B r))
           \<le> length (missingIngredients (scoreRecipe_lib A r))"
  using missing_p1_mono [OF assms, of "extractIngredientNames_p1 (ingredients r)"]
        missing_lib_mono [OF assms, of "extractIngredientNames_lib (ingredients r)"]
  by (simp add: scoreRecipe_p1_def scoreRecipe_lib_def Let_def diff_le_mono2)

theorem matchingCount_mono_witness:
  "set [js ''onion''] \<subseteq> set [js ''onion'', js ''pepper''] \<and>
   rel_option (\<le>)
     (matchingIngredientsCount
        (scoreRecipe_p1 [js ''onion''] (mkRecipe 1 [js ''onion'', js ''pepper''])))
     (matchingIngredientsCount
        (scoreRecipe_p1 [js ''onion'', js ''pepper''] (mkRecipe 1 [js ''onion'', js ''pepper''])))"
  using matchingCount_mono
    [of "[js ''onion'']" "[js ''onion'', js ''pepper'']" "mkRecipe 1 [js ''onion'', js ''pepper'']"]
  by simp

section \<open>Evaluation of the normalizers on concrete lines\<close>

lemmas js_eval =
  js_def toLowerCase_def lowerChar_def isWhiteSpace_def isLineTerminator_def isDigit_def
  isQuantityChar_def trim_def beforeComma_def stripQuantityChars_def stripAsterisks_def
  units3_def units1_def units1b_def units2_def dropDecimals_def stripLeadingDigits_def
  stripLeadingQuantity_lib_def stripLeadingQuantity_p0_def
  cleanIngredient_p1_def extractIngredientNames_p1_def
  cleanIngredient_lib_def extractIngredientNames_lib_def
  cleanIngredient_p0_def extractIngredientNames_p0_def Let_def

lemma extract_p1_onion: "extractIngredientNames_p1 [js ''onion''] = [js ''onion'']"
  by (simp add: js_eval)


lemma includes_onion: "js_includes (js ''onion'') (js ''onion'')"
  by (simp add: js_def)

lemma lower_onion: "toLowerCase (js ''onion'') = js ''onion''"
  by (simp add: js_def toLowerCase_def lowerChar_def)

section \<open>Quick suggestions\<close>

lemma quickMatch_p1_iff:
  "quickMatch_p1 (map toLowerCase avail) r =
     (\<exists>ing\<in>set (extractIngredientNames_p1 (ingredients r)).
        \<exists>a\<in>set avail. js_includes ing (toLowerCase a))"
  by (auto simp: quickMatch_p1_def list_ex_iff)

lemma set_js_slice0: "set (js_slice0 n xs) \<subseteq> set xs"
  by (auto simp: js_slice0_def dest: in_set_takeD)

lemma quick_member:
  assumes "r \<in> set (js_slice0 k (filter (quickMatch_p1 (map toLowerCase avail)) (filter Q rs)))"
  shows "r \<in> set rs \<and>
         (\<exists>ing\<in>set (extractIngredientNames_p1 (ingredients r)).
            \<exists>a\<in>set avail. js_includes ing (toLowerCase a))"
proof -
  from assms have "r \<in> set (filter (quickMatch_p1 (map toLowerCase avail)) (filter Q rs))"
    by (rule subsetD [OF set_js_slice0])
  then have "r \<in> set rs" and "quickMatch_p1 (map toLowerCase avail) r" by simp_all
  then show ?thesis by (simp only: quickMatch_p1_iff simp_thms)
qed

lemma quick_result:
  assumes "failure st = None"
  shows "fst (quickRecipeSuggestions_p1 avail limit filters st) =
           Inr (js_slice0 (limitOrDefault limit)
                  (filter (quickMatch_p1 (map toLowerCase avail))
                     (filter (\<lambda>r. list_all (satisfies r) (buildPrismaWhereClause filters))
                        (rows st))))"
  using assms by (simp add: quickRecipeSuggestions_p1_def findMany_def Let_def)

text \<open>
  C9 as stated fails: with the limit 0 supplied the result is not cut to 0 rows, because
  \<^verbatim>\<open>limit || 10\<close> takes 0 for an absent limit.
\<close>

theorem quick_limit_zero_counterexample:
  "fst (quickRecipeSuggestions_p1 [js ''onion''] (Some 0) None
          (mkStore [mkRecipe 1 [js ''onion'']])) = Inr [mkRecipe 1 [js ''onion'']]"
  by (simp add: quick_result mkStore_def mkRecipe_def buildPrismaWhereClause_def
        limitOrDefault_def js_slice0_def quickMatch_p1_def extract_p1_onion lower_onion
        includes_onion)

text \<open>
  C9 (as amended). When the store answers, quickRecipeSuggestions returns only candidate
  rows with at least one normalized ingredient that contains some available term, with no
  percentage threshold. The rows are the first \<open>limit\<close> matching candidates when a positive
  limit is supplied, and the first 10 when the limit is absent or is 0.
\<close>

theorem quick_suggestions_limit:
  assumes "failure st = None"
  shows "case fst (quickRecipeSuggestions_p1 avail limit filters st) of
           Inl e \<Rightarrow> False
         | Inr out \<Rightarrow>
             (\<forall>r\<in>set out. r \<in> set (rows st) \<and>
                (\<exists>ing\<in>set (extractIngredientNames_p1 (ingredients r)).
                   \<exists>a\<in>set avail. js_includes ing (toLowerCase a))) \<and>
             (\<forall>l. limit = Some l \<longrightarrow> 0 < l \<longrightarrow>
                out = take (nat l) (filter (quickMatch_p1 (map toLowerCase avail))
                        (filter (\<lambda>r. list_all (satisfies r) (buildPrismaWhereClause filters))
                           (rows st)))) \<and>
             (limit = None \<or> limit = Some 0 \<longrightarrow>
                out = take 10 (filter (quickMatch_p1 (map toLowerCase avail))
                        (filter (\<lambda>r. list_all (satisfies r) (buildPrismaWhereClause filters))
                           (rows st))))"
proof -
  let ?m = "filter (quickMatch_p1 (map toLowerCase avail))
              (filter (\<lambda>r. list_all (satisfies r) (buildPrismaWhereClause filters)) (rows st))"
  have mem: "\<forall>r\<in>set (js_slice0 (limitOrDefault limit) ?m). r \<in> set (rows st) \<and>
                (\<exists>ing\<in>set (extractIngredientNames_p1 (ingredients r)).
                   \<exists>a\<in>set avail. js_includes ing (toLowerCase a))"
    using quick_member by blast
  have pos: "\<forall>l. limit = Some l \<longrightarrow> 0 < l \<longrightarrow> js_slice0 (limitOrDefault limit) ?m = take (nat l) ?m"
    by (simp add: js_slice0_def limitOrDefault_def)
  have dflt: "limit = None \<or> limit = Some 0 \<longrightarrow> js_slice0 (limitOrDefault limit) ?m = take 10 ?m"
    by (auto simp: js_slice0_def limitOrDefault_def)
  show ?thesis
    unfolding quick_result [OF assms] by (simp only: sum.case) (intro conjI mem pos dflt)
qed

theorem quick_suggestions_limit_witness:
  "failure (mkStore [mkRecipe 1 [js ''onion''], mkRecipe 2 [js ''onion'']]) = None \<and>
   fst (quickRecipeSuggestions_p1 [js ''onion''] (Some 1) None
          (mkStore [mkRecipe 1 [js ''onion''], mkRecipe 2 [js ''onion'']])) =
     Inr [mkRecipe 1 [js ''onion'']]"
proof -
  let ?st = "mkStore [mkRecipe 1 [js ''onion''], mkRecipe 2 [js ''onion'']]"
  have f: "failure ?st = None" by (simp add: mkStore_def)
  have m: "filter (quickMatch_p1 (map toLowerCase [js ''onion'']))
             (filter (\<lambda>r. list_all (satisfies r) (buildPrismaWhereClause None)) (rows ?st)) =
           [mkRecipe 1 [js ''onion''], mkRecipe 2 [js ''onion'']]"
    by (simp add: mkStore_def mkRecipe_def buildPrismaWhereClause_def quickMatch_p1_def
          extract_p1_onion lower_onion includes_onion)
  show ?thesis
    using quick_suggestions_limit [OF f, of "[js ''onion'']" "Some 1" None] f
    unfolding m by (simp split: sum.splits)
qed

section \<open>Empty input lists\<close>

lemma js_number_zero: "Math_round (js_times (js_divide 0 x) 100) = 0"
  by (simp add: Math_round_def js_times_def js_divide_def toDouble_def floor_eq_iff)

lemma findMany_queries: "queries (snd (findMany wh st)) = queries st + 1"
  by (simp add: findMany_def split: option.splits)

text \<open>
  In the third generation only the full-text strategy returns early on an empty list; the
  strategies built on \<^verbatim>\<open>findMany\<close> always query the store.
\<close>

lemma fullText_p1_empty: "recipesWithFullTextSearch_p1 [] filters st = (Inr [], st)"
  by (simp add: recipesWithFullTextSearch_p1_def)

text \<open>The second generation returns early in recipesByIngredientMatch as well.\<close>

lemma byIngredientMatch_p0_empty:
  "recipesByIngredientMatch_p0 [] m filters st = (Inr [], st)"
  by (simp add: recipesByIngredientMatch_p0_def)

lemma byIngredientMatch_p1_queries:
  "queries (snd (recipesByIngredientMatch_p1 avail m filters st)) = queries st + 1"
  using findMany_queries [of "buildPrismaWhereClause filters" st]
  by (auto simp: recipesByIngredientMatch_p1_def split: prod.splits sum.splits)

lemma exact_p1_queries:
  "queries (snd (recipesWithExactIngredients_p1 avail filters st)) = queries st + 1"
  using findMany_queries [of "buildPrismaWhereClause filters" st]
  by (auto simp: recipesWithExactIngredients_p1_def Let_def split: prod.splits sum.splits)

lemma quick_p1_queries:
  "queries (snd (quickRecipeSuggestions_p1 avail limit filters st)) = queries st + 1"
  using findMany_queries [of "buildPrismaWhereClause filters" st]
  by (auto simp: quickRecipeSuggestions_p1_def Let_def split: prod.splits sum.splits)

text \<open>
  C4. The third-generation recipesByIngredientMatch, called with an empty
  availableIngredients list and minMatchPercentage 0 on a store holding one recipe: the
  store is queried once and the recipe comes back with a score of 0.
\<close>

theorem byIngredientMatch_p1_empty_available:
  "recipesByIngredientMatch_p1 [] 0 None (mkStore [mkRecipe 1 [js ''onion'']]) =
     (Inr [\<lparr>recipe = mkRecipe 1 [js ''onion''], matchPercentage = 0,
            matchingIngredientsCount = Some 0, totalIngredientsCount = Some 1,
            missingIngredients = [js ''onion'']\<rparr>],
      (mkStore [mkRecipe 1 [js ''onion'']])\<lparr>queries := 1\<rparr>)"
  by (simp add: recipesByIngredientMatch_p1_def findMany_def mkStore_def mkRecipe_def
        buildPrismaWhereClause_def scoreRecipe_p1_def extract_p1_onion rankResults_def
        js_sort_def js_number_zero Let_def)

section \<open>The filter pass of the full-text strategy\<close>

lemma veganMatch_p1_false:
  "veganMatch_p1 (Some \<lparr>filter_vegan = Some False, filter_categories = cs\<rparr>) r"
  by (simp add: veganMatch_p1_def)

text \<open>The first generation tests the type of the field, and a \<^verbatim>\<open>false\<close> filter does filter.\<close>

lemma fullTextFilter_lib_vegan_false:
  "row \<in> set (fullTextFilter_lib (Some \<lparr>filter_vegan = Some False, filter_categories = cs\<rparr>) results)
     \<Longrightarrow> \<not> vegan (fst row)"
  by (simp add: fullTextFilter_lib_def)

text \<open>
  C6. The third-generation recipesWithFullTextSearch, called with \<^verbatim>\<open>filters.vegan = false\<close>
  on a store whose text search returns a vegan recipe: the vegan recipe is kept.
\<close>

theorem fullText_p1_vegan_false_keeps_vegan:
  "fst (recipesWithFullTextSearch_p1 [js ''onion'']
          (Some \<lparr>filter_vegan = Some False, filter_categories = None\<rparr>)
          (mkStore [(mkRecipe 1 [js ''onion''])\<lparr>vegan := True\<rparr>])) =
     Inr [((mkRecipe 1 [js ''onion''])\<lparr>vegan := True\<rparr>, 1)]"
  by (simp add: recipesWithFullTextSearch_p1_def textRelevanceSearch_def mkStore_def
        mkRecipe_def veganMatch_p1_def categoryMatch_p1_def Let_def)

section \<open>Unit words inside other words\<close>

text \<open>
  C8. The unit patterns have no word boundary. The third generation removes every
  \<open>g\<close> and \<open>l\<close> of a line, the second generation takes the \<open>g\<close> of a word that follows the
  leading number for a unit.
\<close>

theorem units_stripped_inside_words:
  "extractIngredientNames_p1 [js ''flour'', js ''ginger''] = [js ''f our'', js ''in er''] \<and>
   extractIngredientNames_p0 [js ''2 garlic cloves''] = [js ''arlic cloves'']"
  by (simp add: js_eval)

section \<open>What the third-generation normalizer guarantees\<close>

lemma js_includes_sublist: "js_includes s t = sublist t s"
  by (induction s) (auto simp: sublist_Cons_right)

lemma set_removeParens: "set (removeParens s) \<subseteq> set s"
proof (induction s rule: removeParens.induct)
  case 1
  show ?case by simp
next
  case (2 x xs)
  show ?case
  proof (cases "x = 40")
    case False
    with 2 show ?thesis by auto
  next
    case True
    show ?thesis
    proof (cases "dropWhile (\<lambda>c. c \<noteq> 41 \<and> \<not> isLineTerminator c) xs")
      case Nil
      with True have "removeParens (x # xs) = x # removeParens xs"
        by (simp del: dropWhile_eq_Nil_conv)
      with 2(1) [OF True Nil] show ?thesis by auto
    next
      case (Cons y r)
      then have sub: "set r \<subseteq> set xs"
        by (metis set_dropWhileD set_subset_Cons subsetD subsetI)
      show ?thesis
      proof (cases "y = 41")
        case y: True
        from 2(2) [OF True Cons y] sub True Cons y show ?thesis by auto
      next
        case y: False
        from 2(3) [OF True Cons y] True Cons y show ?thesis by auto
      qed
    qed
  qed
qed

lemma set_stripUnits: "set (stripUnits s) \<subseteq> insert 32 (set s)"
proof (induction s rule: stripUnits.induct)
  case 1
  show ?case by simp
next
  case (2 x xs)
  show ?case
  proof (cases "firstAlt units3 (dropWhile isWhiteSpace (x # xs))")
    case None
    with 2(1) show ?thesis by auto
  next
    case (Some u)
    have "set (dropWhile isWhiteSpace (drop (length u) (dropWhile isWhiteSpace (x # xs))))
            \<subseteq> set (x # xs)"
      by (meson set_dropWhileD set_drop_subset subsetD subsetI)
    with 2(2) [OF Some] Some show ?thesis by auto
  qed
qed

lemma set_collapseWhiteSpace: "set (collapseWhiteSpace s) \<subseteq> insert 32 (set s)"
proof (induction s rule: collapseWhiteSpace.induct)
  case 1
  show ?case by simp
next
  case (2 x xs)
  show ?case
  proof (cases "isWhiteSpace x")
    case True
    have "set (dropWhile isWhiteSpace xs) \<subseteq> set xs"
      by (meson set_dropWhileD subsetI)
    with 2(1) [OF True] True show ?thesis by auto
  next
    case False
    with 2(2) show ?thesis by auto
  qed
qed

lemma set_trim: "set (trim s) \<subseteq> set s"
  unfolding trim_def by (metis set_dropWhileD set_rev subsetI)

lemma not_quantity_32: "\<not> isQuantityChar 32"
  by (simp add: isQuantityChar_def isDigit_def)

lemma cleanIngredient_p1_no_quantity:
  "c \<in> set (cleanIngredient_p1 raw) \<Longrightarrow> \<not> isQuantityChar c"
proof -
  let ?a = "stripQuantityChars (beforeComma (removeParens (toLowerCase raw)))"
  assume "c \<in> set (cleanIngredient_p1 raw)"
  then have "c \<in> set (collapseWhiteSpace (trim (stripAsterisks (stripUnits ?a))))"
    by (simp add: cleanIngredient_p1_def Let_def)
  then have "c = 32 \<or> c \<in> set (trim (stripAsterisks (stripUnits ?a)))"
    using set_collapseWhiteSpace by blast
  then have "c = 32 \<or> c \<in> set (stripAsterisks (stripUnits ?a))"
    using subsetD [OF set_trim] by blast
  then have "c = 32 \<or> c \<in> set (stripUnits ?a)"
    by (auto simp: stripAsterisks_def)
  then have "c = 32 \<or> c \<in> set ?a"
    using set_stripUnits by blast
  then show ?thesis
    using not_quantity_32 by (auto simp: stripQuantityChars_def)
qed

lemma firstAlt_None: "firstAlt us s = None \<Longrightarrow> u \<in> set us \<Longrightarrow> \<not> prefix u (map lowerChar s)"
  by (induction us) (auto split: if_splits)

lemma units3_props:
  "u \<in> set units3 \<Longrightarrow> u \<noteq> [] \<and> (\<forall>c\<in>set u. \<not> isWhiteSpace c) \<and> map lowerChar u = u"
  by (auto simp: units3_def js_def isWhiteSpace_def lowerChar_def)

lemma isWhiteSpace_32: "isWhiteSpace 32"
  by (simp add: isWhiteSpace_def)

lemma prefix_stripUnits:
  "(\<forall>c\<in>set w. \<not> isWhiteSpace c) \<Longrightarrow> prefix w (stripUnits s) \<Longrightarrow> prefix w s"
proof (induction w arbitrary: s)
  case Nil
  show ?case by simp
next
  case (Cons c w)
  show ?case
  proof (cases s)
    case Nil
    with Cons.prems show ?thesis by simp
  next
    case s: (Cons x xs)
    show ?thesis
    proof (cases "firstAlt units3 (dropWhile isWhiteSpace (x # xs))")
      case None
      with Cons.prems s have "c = x" and "prefix w (stripUnits xs)" by simp_all
      with Cons.IH [of xs] Cons.prems(1) s show ?thesis by simp
    next
      case (Some u)
      with Cons.prems s have "c = 32" by simp
      with Cons.prems(1) isWhiteSpace_32 show ?thesis by simp
    qed
  qed
qed

lemma stripUnits_no_unit:
  assumes u: "u \<in> set units3"
  shows "\<not> sublist u (stripUnits s)"
proof (induction s rule: stripUnits.induct)
  case 1
  from units3_props [OF u] show ?case by simp
next
  case (2 x xs)
  from units3_props [OF u] have ne: "u \<noteq> []" and wf: "\<forall>c\<in>set u. \<not> isWhiteSpace c"
    and low: "map lowerChar u = u" by simp_all
  show ?case
  proof (cases "firstAlt units3 (dropWhile isWhiteSpace (x # xs))")
    case None
    then have eq: "stripUnits (x # xs) = x # stripUnits xs" by simp
    have "\<not> prefix u (x # stripUnits xs)"
    proof
      assume "prefix u (x # stripUnits xs)"
      with eq have "prefix u (stripUnits (x # xs))" by simp
      with wf have p: "prefix u (x # xs)" by (rule prefix_stripUnits)
      with ne have "x \<in> set u" by (cases u) auto
      with wf have "\<not> isWhiteSpace x" by blast
      with None have "firstAlt units3 (x # xs) = None" by simp
      from firstAlt_None [OF this u] have "\<not> prefix u (map lowerChar (x # xs))" .
      moreover from p have "prefix (map lowerChar u) (map lowerChar (x # xs))"
        by (rule map_mono_prefix)
      ultimately show False using low by simp
    qed
    with 2(1) [OF None] eq show ?thesis by (simp add: sublist_Cons_right)
  next
    case (Some v)
    then have eq: "stripUnits (x # xs) =
        32 # stripUnits (dropWhile isWhiteSpace (drop (length v) (dropWhile isWhiteSpace (x # xs))))"
      by simp
    have "\<not> prefix u (32 # stripUnits (dropWhile isWhiteSpace
              (drop (length v) (dropWhile isWhiteSpace (x # xs)))))"
      using ne wf isWhiteSpace_32 by (cases u) auto
    with 2(2) [OF Some] eq show ?thesis by (simp add: sublist_Cons_right)
  qed
qed

lemma prefix_collapseWhiteSpace:
  "(\<forall>c\<in>set w. \<not> isWhiteSpace c) \<Longrightarrow> prefix w (collapseWhiteSpace s) \<Longrightarrow> prefix w s"
proof (induction w arbitrary: s)
  case Nil
  show ?case by simp
next
  case (Cons c w)
  show ?case
  proof (cases s)
    case Nil
    with Cons.prems show ?thesis by simp
  next
    case s: (Cons x xs)
    show ?thesis
    proof (cases "isWhiteSpace x")
      case True
      with Cons.prems s have "c = 32" by simp
      with Cons.prems(1) isWhiteSpace_32 show ?thesis by simp
    next
      case False
      with Cons.prems s have "c = x" and "prefix w (collapseWhiteSpace xs)" by simp_all
      with Cons.IH [of xs] Cons.prems(1) s show ?thesis by simp
    qed
  qed
qed

lemma sublist_collapseWhiteSpace:
  assumes ne: "w \<noteq> []" and wf: "\<forall>c\<in>set w. \<not> isWhiteSpace c"
  shows "sublist w (collapseWhiteSpace s) \<Longrightarrow> sublist w s"
proof (induction s rule: collapseWhiteSpace.induct)
  case 1
  then show ?case by simp
next
  case (2 x xs)
  show ?case
  proof (cases "isWhiteSpace x")
    case True
    then have eq: "collapseWhiteSpace (x # xs) = 32 # collapseWhiteSpace (dropWhile isWhiteSpace xs)"
      by simp
    have "\<not> prefix w (32 # collapseWhiteSpace (dropWhile isWhiteSpace xs))"
      using ne wf isWhiteSpace_32 by (cases w) auto
    with 2(3) eq have "sublist w (collapseWhiteSpace (dropWhile isWhiteSpace xs))"
      by (simp add: sublist_Cons_right)
    from 2(1) [OF True this] have "sublist w (dropWhile isWhiteSpace xs)" .
    then have "sublist w xs"
      by (rule sublist_order.order_trans [OF _ sublist_dropWhile])
    then show ?thesis by (simp add: sublist_Cons_right)
  next
    case False
    then have eq: "collapseWhiteSpace (x # xs) = x # collapseWhiteSpace xs" by simp
    with 2(3) have "prefix w (collapseWhiteSpace (x # xs)) \<or> sublist w (collapseWhiteSpace xs)"
      by (simp add: sublist_Cons_right)
    then show ?thesis
    proof
      assume "prefix w (collapseWhiteSpace (x # xs))"
      with wf have "prefix w (x # xs)" by (rule prefix_collapseWhiteSpace)
      then show ?thesis by (rule prefix_imp_sublist)
    next
      assume "sublist w (collapseWhiteSpace xs)"
      from 2(2) [OF False this] show ?thesis by (simp add: sublist_Cons_right)
    qed
  qed
qed

lemma sublist_trim: "sublist (trim s) s"
proof -
  have "sublist (dropWhile isWhiteSpace (rev (dropWhile isWhiteSpace s)))
          (rev (dropWhile isWhiteSpace s))"
    by (rule sublist_dropWhile)
  then have "sublist (trim s) (dropWhile isWhiteSpace s)"
    by (simp add: trim_def sublist_rev_left)
  moreover have "sublist (dropWhile isWhiteSpace s) s" by (rule sublist_dropWhile)
  ultimately show ?thesis by (rule sublist_order.order_trans)
qed

lemma lowerChar_42: "(lowerChar c = 42) = (c = 42)"
  by (auto simp: lowerChar_def)

lemma no_asterisk_kept:
  assumes "42 \<notin> set raw"
  shows "42 \<notin> set (stripUnits (stripQuantityChars (beforeComma (removeParens (toLowerCase raw)))))"
proof -
  have "42 \<notin> set (toLowerCase raw)"
  proof
    assume "42 \<in> set (toLowerCase raw)"
    then obtain c where "c \<in> set raw" and "lowerChar c = 42"
      by (auto simp: toLowerCase_def)
    with assms show False by (simp add: lowerChar_42)
  qed
  then have "42 \<notin> set (removeParens (toLowerCase raw))"
    using set_removeParens by blast
  then have "42 \<notin> set (stripQuantityChars (beforeComma (removeParens (toLowerCase raw))))"
    by (auto simp: stripQuantityChars_def beforeComma_def dest: set_takeWhileD)
  then show ?thesis
    using set_stripUnits by fastforce
qed

lemma cleanIngredient_p1_no_unit:
  assumes "42 \<notin> set raw" and u: "u \<in> set units3"
  shows "\<not> js_includes (cleanIngredient_p1 raw) u"
proof
  let ?a = "stripUnits (stripQuantityChars (beforeComma (removeParens (toLowerCase raw))))"
  from units3_props [OF u] have ne: "u \<noteq> []" and wf: "\<forall>c\<in>set u. \<not> isWhiteSpace c"
    by simp_all
  have "stripAsterisks ?a = ?a"
    using no_asterisk_kept [OF assms(1)] by (auto simp: stripAsterisks_def filter_id_conv)
  then have c: "cleanIngredient_p1 raw = collapseWhiteSpace (trim ?a)"
    by (simp add: cleanIngredient_p1_def Let_def)
  assume "js_includes (cleanIngredient_p1 raw) u"
  with c have "sublist u (collapseWhiteSpace (trim ?a))"
    by (simp add: js_includes_sublist)
  with ne wf have "sublist u (trim ?a)" by (rule sublist_collapseWhiteSpace)
  then have "sublist u ?a" by (rule sublist_order.order_trans [OF _ sublist_trim])
  with stripUnits_no_unit [OF u] show False by blast
qed

lemma containsWord_sublist: "containsWord b u s \<Longrightarrow> sublist u s"
proof (induction s arbitrary: b)
  case Nil
  then show ?case by (simp add: wordAt_def)
next
  case (Cons x xs)
  then consider "wordAt u (x # xs)" | "containsWord (\<not> isWordChar x) u xs" by auto
  then show ?case
  proof cases
    case 1
    then have "prefix u (x # xs)" by (simp add: wordAt_def)
    then show ?thesis by (rule prefix_imp_sublist)
  next
    case 2
    then have "sublist u xs" by (rule Cons.IH)
    then show ?thesis by (simp add: sublist_Cons_right)
  qed
qed

lemma occursAsWord_includes: "occursAsWord u s \<Longrightarrow> js_includes s u"
  by (simp add: occursAsWord_def js_includes_sublist containsWord_sublist)

text \<open>
  C3 as stated fails. The first generation strips a quantity and a unit only at the start
  of the line, so a later digit and unit word stay. The third generation removes asterisks
  after the units, so an asterisk inside a unit word lets the word through.
\<close>

theorem digits_units_survive_counterexample:
  "extractIngredientNames_lib [js ''flour 2 cups''] = [js ''flour 2 cups''] \<and>
   list_ex isDigit (js ''flour 2 cups'') \<and>
   occursAsWord (js ''cups'') (js ''flour 2 cups'') \<and>
   extractIngredientNames_p1 [js ''c*up''] = [js ''cup''] \<and>
   occursAsWord (js ''cup'') (js ''cup'')"
  by (simp add: js_eval occursAsWord_def wordAt_def isWordChar_def)

text \<open>
  C3 (as amended). Every token the third-generation normalizer returns is non-empty, is the
  cleaned form of one of the lines, and holds no ASCII digit and none of the fifteen
  fraction glyphs of its character class, wherever they stood in the line. A token that
  comes from a line without an asterisk holds none of the words of the normalizer's unit
  vocabulary (the twelve seeded words g, kg, ml, l, oz, lb, tbsp, tsp, cup, cups, pinch,
  handful, and clove, large, medium, small, can, cans) as a whole word.
\<close>

theorem extract_p1_tokens_clean:
  assumes "t \<in> set (extractIngredientNames_p1 ingredientLines)"
  shows "t \<noteq> [] \<and> (\<forall>c\<in>set t. \<not> isQuantityChar c) \<and>
         (\<exists>raw\<in>set ingredientLines. t = cleanIngredient_p1 raw) \<and>
         (\<forall>raw. t = cleanIngredient_p1 raw \<longrightarrow> 42 \<notin> set raw \<longrightarrow>
            (\<forall>u\<in>set units3. \<not> occursAsWord u t))"
proof -
  from assms obtain raw where raw: "raw \<in> set ingredientLines"
    and t: "t = cleanIngredient_p1 raw" and ne: "t \<noteq> []"
    by (auto simp: extractIngredientNames_p1_def)
  have q: "\<forall>c\<in>set t. \<not> isQuantityChar c"
    using cleanIngredient_p1_no_quantity t by blast
  have w: "\<not> occursAsWord u t"
    if "t = cleanIngredient_p1 raw'" "42 \<notin> set raw'" "u \<in> set units3" for raw' u
  proof
    assume "occursAsWord u t"
    then have "js_includes (cleanIngredient_p1 raw') u"
      unfolding that(1) by (rule occursAsWord_includes)
    with cleanIngredient_p1_no_unit [OF that(2) that(3)] show False by simp
  qed
  from ne q raw t w show ?thesis by blast
qed

theorem extract_p1_tokens_clean_witness:
  "js ''onion'' \<in> set (extractIngredientNames_p1 [js ''2 tbsp onion'']) \<and>
   js ''onion'' = cleanIngredient_p1 (js ''2 tbsp onion'') \<and>
   list_all (\<lambda>c. \<not> isQuantityChar c) (js ''onion'') \<and>
   list_all (\<lambda>u. \<not> occursAsWord u (js ''onion'')) units3"
proof -
  have c: "js ''onion'' = cleanIngredient_p1 (js ''2 tbsp onion'')"
    by (simp add: js_eval)
  have e: "extractIngredientNames_p1 [js ''2 tbsp onion''] = [js ''onion'']"
    by (simp add: js_eval)
  have a: "42 \<notin> set (js ''2 tbsp onion'')"
    by (simp add: js_def)
  have m: "js ''onion'' \<in> set (extractIngredientNames_p1 [js ''2 tbsp onion''])"
    unfolding e by simp
  from extract_p1_tokens_clean [OF m] c a m show ?thesis
    unfolding list_all_iff by blast
qed

section \<open>Properties of the binary64 rounding\<close>

lemma bitLength_bounds:
  "1 \<le> n \<Longrightarrow> 2 ^ (bitLength n - 1) \<le> n \<and> n < 2 ^ bitLength n"
proof (induction n rule: bitLength.induct)
  case (1 n)
  show ?case
  proof (cases "n = 1")
    case True
    then show ?thesis by (simp add: bitLength.simps)
  next
    case False
    with 1(2) have n2: "2 \<le> n" by simp
    then have d: "1 \<le> n div 2" by simp
    let ?b = "bitLength (n div 2)"
    from 1(1) d 1(2) have ih: "2 ^ (?b - 1) \<le> n div 2" "n div 2 < 2 ^ ?b" by simp_all
    have b1: "1 \<le> ?b" using d by (simp add: bitLength.simps [of "n div 2"])
    have bl: "bitLength n = Suc ?b" using 1(2) by (simp add: bitLength.simps [of n])
    have "(2::int) ^ ?b = 2 * 2 ^ (?b - 1)"
      using b1 by (metis One_nat_def Suc_pred less_eq_Suc_le power_Suc)
    with ih(1) have lo: "(2::int) ^ ?b \<le> n" by linarith
    from ih(2) have "n < 2 * 2 ^ ?b" by linarith
    with lo bl show ?thesis by simp
  qed
qed

lemma binade_lower: "0 < x \<Longrightarrow> 2 powi binade x \<le> x"
proof (cases "1 \<le> x")
  case True
  let ?b = "bitLength \<lfloor>x\<rfloor>"
  from True have n: "1 \<le> \<lfloor>x\<rfloor>" by simp
  from bitLength_bounds [OF n] have "(2::int) ^ (?b - 1) \<le> \<lfloor>x\<rfloor>" by simp
  then have "rat_of_int (2 ^ (?b - 1)) \<le> of_int \<lfloor>x\<rfloor>"
    by (simp only: of_int_le_iff)
  also have "\<dots> \<le> x" by (rule of_int_floor_le)
  finally have le: "(2::rat) ^ (?b - 1) \<le> x" by simp
  have "1 \<le> ?b"
    using n by (simp add: bitLength.simps [of "\<lfloor>x\<rfloor>"])
  then have "int ?b - 1 = int (?b - 1)" by linarith
  with True have "binade x = int (?b - 1)" by (simp only: binade_def if_True)
  then have "2 powi binade x = (2::rat) ^ (?b - 1)" by (simp only: power_int_of_nat)
  with le show ?thesis by (simp only:)
next
  case False
  assume x: "0 < x"
  let ?c = "\<lceil>1 / x\<rceil>"
  let ?k = "bitLength (?c - 1)"
  from False x have "1 < 1 / x" by simp
  then have c: "1 \<le> ?c - 1" by (simp add: less_ceiling_iff)
  from bitLength_bounds [OF c] have "?c - 1 < 2 ^ ?k" by simp
  then have "?c \<le> 2 ^ ?k" by linarith
  then have "rat_of_int ?c \<le> of_int (2 ^ ?k)" by (simp only: of_int_le_iff)
  moreover have "1 / x \<le> of_int ?c" by (rule le_of_int_ceiling)
  ultimately have "1 / x \<le> of_int (2 ^ ?k)" by (rule order_trans [rotated])
  then have "1 / x \<le> 2 ^ ?k" by simp
  then have le: "1 / 2 ^ ?k \<le> x"
    using x by (simp add: field_simps)
  from False have "binade x = - int ?k" by (simp only: binade_def if_False)
  then have "2 powi binade x = 1 / (2::rat) ^ ?k"
    by (simp only: power_int_minus_divide power_int_of_nat)
  with le show ?thesis by (simp only:)
qed

lemma binade_upper: "0 < x \<Longrightarrow> x < 2 powi (binade x + 1)"
proof (cases "1 \<le> x")
  case True
  let ?b = "bitLength \<lfloor>x\<rfloor>"
  from True have n: "1 \<le> \<lfloor>x\<rfloor>" by simp
  from bitLength_bounds [OF n] have "\<lfloor>x\<rfloor> + 1 \<le> 2 ^ ?b" by linarith
  then have "rat_of_int (\<lfloor>x\<rfloor> + 1) \<le> of_int (2 ^ ?b)"
    by (simp only: of_int_le_iff)
  moreover have "x < of_int (\<lfloor>x\<rfloor> + 1)" by linarith
  ultimately have "x < of_int (2 ^ ?b)" by (rule less_le_trans [rotated])
  then have lt: "x < 2 ^ ?b" by simp
  from True have "binade x + 1 = int ?b" by (simp only: binade_def if_True)
  then have "2 powi (binade x + 1) = (2::rat) ^ ?b" by (simp only: power_int_of_nat)
  with lt show ?thesis by (simp only:)
next
  case False
  assume x: "0 < x"
  let ?c = "\<lceil>1 / x\<rceil>"
  let ?k = "bitLength (?c - 1)"
  from False x have "1 < 1 / x" by simp
  then have c: "1 \<le> ?c - 1" by (simp add: less_ceiling_iff)
  have k1: "1 \<le> ?k" using c by (simp add: bitLength.simps [of "?c - 1"])
  from bitLength_bounds [OF c] have "2 ^ (?k - 1) \<le> ?c - 1" by simp
  then have "rat_of_int (2 ^ (?k - 1)) \<le> of_int (?c - 1)" by (simp only: of_int_le_iff)
  moreover have "rat_of_int (?c - 1) < 1 / x" by linarith
  ultimately have "rat_of_int (2 ^ (?k - 1)) < 1 / x" by (rule le_less_trans)
  then have "2 ^ (?k - 1) < 1 / x" by simp
  then have lt: "x < 1 / 2 ^ (?k - 1)"
    using x by (simp add: field_simps)
  from False have "binade x = - int ?k" by (simp only: binade_def if_False)
  with k1 have "binade x + 1 = - int (?k - 1)" by linarith
  then have "2 powi (binade x + 1) = 1 / (2::rat) ^ (?k - 1)"
    by (simp only: power_int_minus_divide power_int_of_nat)
  with lt show ?thesis by (simp only:)
qed

lemma roundTiesToEven_cases:
  "roundTiesToEven t = \<lfloor>t\<rfloor> \<and> t - of_int \<lfloor>t\<rfloor> \<le> 1 / 2 \<or>
   roundTiesToEven t = \<lfloor>t\<rfloor> + 1 \<and> 1 / 2 \<le> t - of_int \<lfloor>t\<rfloor>"
  by (auto simp: roundTiesToEven_def Let_def)

lemma roundTiesToEven_error: "\<bar>of_int (roundTiesToEven t) - t\<bar> \<le> 1 / 2"
proof -
  have "of_int \<lfloor>t\<rfloor> \<le> t" and "t < of_int \<lfloor>t\<rfloor> + 1" by linarith+
  with roundTiesToEven_cases [of t] show ?thesis by auto
qed

lemma roundTiesToEven_le_int:
  assumes "t \<le> of_int k"
  shows "roundTiesToEven t \<le> k"
proof -
  from roundTiesToEven_cases [of t] show ?thesis
  proof
    assume "roundTiesToEven t = \<lfloor>t\<rfloor> \<and> t - of_int \<lfloor>t\<rfloor> \<le> 1 / 2"
    moreover from assms have "\<lfloor>t\<rfloor> \<le> k" by (simp add: floor_le_iff)
    ultimately show ?thesis by simp
  next
    assume a: "roundTiesToEven t = \<lfloor>t\<rfloor> + 1 \<and> 1 / 2 \<le> t - of_int \<lfloor>t\<rfloor>"
    then have "of_int \<lfloor>t\<rfloor> < t" by linarith
    with assms have "rat_of_int \<lfloor>t\<rfloor> < of_int k" by linarith
    then have "\<lfloor>t\<rfloor> < k" by (simp only: of_int_less_iff)
    with a show ?thesis by simp
  qed
qed

lemma roundTiesToEven_nonneg: "0 \<le> t \<Longrightarrow> 0 \<le> roundTiesToEven t"
  using roundTiesToEven_cases [of t] by auto

lemma pow2_inverse: "(2::rat) powi (52 - e) * 2 powi (e - 52) = 1"
proof -
  have "(2::rat) powi (52 - e) * 2 powi (e - 52) = 2 powi ((52 - e) + (e - 52))"
    by (rule power_int_add [symmetric]) simp
  then show ?thesis by simp
qed

lemma toDouble_pos:
  "0 < x \<Longrightarrow>
   toDouble x = of_int (roundTiesToEven (x * 2 powi (52 - binade x))) * 2 powi (binade x - 52)"
  by (simp add: toDouble_def Let_def)

lemma toDouble_nonneg: "0 \<le> x \<Longrightarrow> 0 \<le> toDouble x"
proof (cases "x = 0")
  case True
  then show ?thesis by (simp add: toDouble_def)
next
  case False
  assume "0 \<le> x"
  with False have x: "0 < x" by simp
  then have "0 \<le> x * 2 powi (52 - binade x)" by simp
  then have "0 \<le> roundTiesToEven (x * 2 powi (52 - binade x))"
    by (rule roundTiesToEven_nonneg)
  then show ?thesis
    unfolding toDouble_pos [OF x] by simp
qed

lemma toDouble_le_int:
  assumes x: "0 < x" and le: "x \<le> of_int c" and c: "c \<le> 2 ^ 52"
  shows "toDouble x \<le> of_int c"
proof -
  let ?e = "binade x"
  have "(2::rat) powi ?e \<le> x" using x by (rule binade_lower)
  also have "x \<le> of_int c" by (rule le)
  also have "rat_of_int c \<le> of_int (2 ^ 52)" using c by (simp only: of_int_le_iff)
  finally have "(2::rat) powi ?e \<le> 2 powi 52" by simp
  then have e: "?e \<le> 52"
    by (rule power_int_le_imp_le_exp [rotated]) simp_all
  then have P: "(2::rat) powi (52 - ?e) = of_int (2 ^ nat (52 - ?e))"
    by (simp add: power_int_nonneg_exp)
  have "x * 2 powi (52 - ?e) \<le> of_int c * 2 powi (52 - ?e)"
    using le by (simp add: mult_right_mono)
  also have "\<dots> = of_int (c * 2 ^ nat (52 - ?e))" by (simp add: P)
  finally have "roundTiesToEven (x * 2 powi (52 - ?e)) \<le> c * 2 ^ nat (52 - ?e)"
    by (rule roundTiesToEven_le_int)
  then have "rat_of_int (roundTiesToEven (x * 2 powi (52 - ?e))) \<le> of_int (c * 2 ^ nat (52 - ?e))"
    by (simp only: of_int_le_iff)
  then have "rat_of_int (roundTiesToEven (x * 2 powi (52 - ?e))) * 2 powi (?e - 52)
               \<le> of_int (c * 2 ^ nat (52 - ?e)) * 2 powi (?e - 52)"
    by (rule mult_right_mono) simp
  also have "of_int (c * 2 ^ nat (52 - ?e)) * 2 powi (?e - 52) =
               of_int c * ((2::rat) powi (52 - ?e) * 2 powi (?e - 52))"
    by (simp add: P)
  also have "\<dots> = of_int c" by (simp only: pow2_inverse mult_1_right)
  finally show ?thesis unfolding toDouble_pos [OF x] .
qed

lemma toDouble_error:
  assumes x: "0 < x"
  shows "\<bar>toDouble x - x\<bar> \<le> x / 2 ^ 53"
proof -
  let ?e = "binade x"
  let ?P = "(2::rat) powi (52 - ?e)"
  let ?Q = "(2::rat) powi (?e - 52)"
  let ?t = "x * ?P"
  have Q0: "0 < ?Q" by simp
  have tQ: "?t * ?Q = x" using pow2_inverse [of ?e] by (simp add: mult.assoc)
  have "toDouble x - x = (of_int (roundTiesToEven ?t) - ?t) * ?Q"
    unfolding toDouble_pos [OF x] using tQ by (simp add: algebra_simps)
  then have "\<bar>toDouble x - x\<bar> = \<bar>of_int (roundTiesToEven ?t) - ?t\<bar> * ?Q"
    using Q0 by (simp add: abs_mult)
  also have "\<dots> \<le> (1 / 2) * ?Q"
    using roundTiesToEven_error [of ?t] Q0 by (simp add: mult_right_mono)
  also have "?Q = 2 powi ?e / 2 ^ 52"
    by (simp add: power_int_diff)
  also have "(1 / 2) * ((2::rat) powi ?e / 2 ^ 52) \<le> (1 / 2) * (x / 2 ^ 52)"
    using binade_lower [OF x] by (simp add: divide_right_mono)
  finally show ?thesis by simp
qed

lemma toDouble_of_int:
  assumes k: "0 < k" and le: "k \<le> 2 ^ 52"
  shows "toDouble (of_int k) = of_int k"
proof -
  let ?x = "rat_of_int k"
  let ?e = "binade ?x"
  have x: "0 < ?x" using k by simp
  have "(2::rat) powi ?e \<le> ?x" using x by (rule binade_lower)
  also have "?x \<le> of_int (2 ^ 52)" using le by (simp only: of_int_le_iff)
  finally have "(2::rat) powi ?e \<le> 2 powi 52" by simp
  then have e: "?e \<le> 52"
    by (rule power_int_le_imp_le_exp [rotated]) simp_all
  then have P: "(2::rat) powi (52 - ?e) = of_int (2 ^ nat (52 - ?e))"
    by (simp add: power_int_nonneg_exp)
  have "?x * 2 powi (52 - ?e) = of_int (k * 2 ^ nat (52 - ?e))" by (simp add: P)
  moreover have "roundTiesToEven (of_int j) = j" for j
    by (simp add: roundTiesToEven_def)
  ultimately have "roundTiesToEven (?x * 2 powi (52 - ?e)) = k * 2 ^ nat (52 - ?e)"
    by (simp only:)
  then have "toDouble ?x = of_int (k * 2 ^ nat (52 - ?e)) * 2 powi (?e - 52)"
    unfolding toDouble_pos [OF x] by (simp only:)
  also have "\<dots> = ?x * ((2::rat) powi (52 - ?e) * 2 powi (?e - 52))"
    by (simp add: P)
  also have "\<dots> = ?x" by (simp only: pow2_inverse mult_1_right)
  finally show ?thesis .
qed

lemma js_divide_self: "0 < n \<Longrightarrow> js_divide (of_nat n) (of_nat n) = 1"
  using toDouble_of_int [of 1] by (simp add: js_divide_def)

lemma js_times_1_100: "js_times 1 100 = 100"
  using toDouble_of_int [of 100] by (simp add: js_times_def)

lemma percentage_all: "0 < n \<Longrightarrow> js_matchPercentage n n = 100"
  by (simp add: js_matchPercentage_def js_divide_self js_times_1_100 Math_round_def
        floor_eq_iff)

lemma percentage_none: "js_matchPercentage 0 n = 0"
  by (simp add: js_matchPercentage_def Math_round_def js_times_def js_divide_def
        toDouble_def floor_eq_iff)

lemma js_divide_range:
  assumes "m \<le> n" and "0 < n"
  shows "0 \<le> js_divide (of_nat m) (of_nat n) \<and> js_divide (of_nat m) (of_nat n) \<le> 1"
proof -
  let ?q = "rat_of_nat m / of_nat n"
  have q0: "0 \<le> ?q" by simp
  have q1: "?q \<le> 1" using assms by simp
  have "toDouble ?q \<le> 1"
  proof (cases "?q = 0")
    case True
    then show ?thesis by (simp add: toDouble_def)
  next
    case False
    with q0 have "0 < ?q" by linarith
    moreover from q1 have "?q \<le> of_int 1" by simp
    ultimately have "toDouble ?q \<le> of_int 1" by (rule toDouble_le_int) simp
    then show ?thesis by simp
  qed
  with toDouble_nonneg [OF q0] show ?thesis by (simp add: js_divide_def)
qed

lemma js_times_100_range:
  assumes "0 \<le> y" and "y \<le> 1"
  shows "0 \<le> js_times y 100 \<and> js_times y 100 \<le> 100"
proof -
  from assms have p0: "0 \<le> y * 100" by simp
  have "toDouble (y * 100) \<le> 100"
  proof (cases "y * 100 = 0")
    case True
    then show ?thesis by (simp add: toDouble_def)
  next
    case False
    with p0 have "0 < y * 100" by linarith
    moreover from assms have "y * 100 \<le> of_int 100" by simp
    ultimately have "toDouble (y * 100) \<le> of_int 100" by (rule toDouble_le_int) simp
    then show ?thesis by simp
  qed
  with toDouble_nonneg [OF p0] show ?thesis by (simp add: js_times_def)
qed

lemma percentage_range:
  assumes "m \<le> n"
  shows "0 \<le> js_matchPercentage m n \<and> js_matchPercentage m n \<le> 100"
proof (cases "0 < n")
  case False
  then show ?thesis by (simp add: js_matchPercentage_def)
next
  case True
  let ?z = "js_times (js_divide (of_nat m) (of_nat n)) 100"
  from js_divide_range [OF assms True] have "0 \<le> ?z \<and> ?z \<le> 100"
    by (intro js_times_100_range) simp_all
  then have "0 \<le> \<lfloor>?z + 1 / 2\<rfloor>" and "\<lfloor>?z + 1 / 2\<rfloor> \<le> 100"
    by (simp_all add: floor_le_iff le_floor_iff)
  with True show ?thesis by (simp add: js_matchPercentage_def Math_round_def)
qed

section \<open>The match percentage\<close>

lemma length_minus_missing:
  "length xs - length (filter (\<lambda>x. \<not> P x) xs) = length (filter P xs)"
  using sum_length_filter_compl [of P xs] by simp

lemma Math_round_zero: "Math_round 0 = 0"
  by (simp add: Math_round_def floor_eq_iff)










lemma scoreRecipe_p1_percentage:
  "matchPercentage (scoreRecipe_p1 available r) =
     js_matchPercentage
       (length (filter (\<lambda>req. list_ex (\<lambda>avail. js_includes req avail) (map toLowerCase available))
                  (extractIngredientNames_p1 (ingredients r))))
       (length (extractIngredientNames_p1 (ingredients r)))"
  by (simp add: scoreRecipe_p1_def Let_def js_matchPercentage_def length_minus_missing)






section \<open>Exact mode and the threshold 100\<close>

lemma scoreRecipe_p1_recipe [simp]: "recipe (scoreRecipe_p1 available r) = r"
  by (simp add: scoreRecipe_p1_def Let_def)

lemma toDouble_upper:
  assumes "0 \<le> x"
  shows "toDouble x \<le> x * (1 + 1 / 2 ^ 53)"
proof (cases "x = 0")
  case True
  then show ?thesis by (simp add: toDouble_def)
next
  case False
  with assms have "0 < x" by simp
  from toDouble_error [OF this] have "toDouble x - x \<le> x / 2 ^ 53" by linarith
  then show ?thesis by (simp add: algebra_simps)
qed

lemma percentage_one_missing:
  assumes mn: "m < n" and n: "n < 200"
  shows "js_matchPercentage m n < 100"
proof -
  let ?x = "rat_of_nat m / of_nat n"
  let ?y = "js_divide (of_nat m) (of_nat n)"
  let ?z = "js_times ?y 100"
  let ?d = "(1 + 1 / 2 ^ 53 :: rat)"
  from mn have n0: "0 < n" by simp
  from mn n have "199 * m \<le> 198 * n" by linarith
  then have "rat_of_nat (199 * m) \<le> of_nat (198 * n)" by (simp only: of_nat_le_iff)
  then have x: "?x \<le> 198 / 199"
    using n0 by (simp add: field_simps)
  have x0: "0 \<le> ?x" by simp
  have "?y \<le> ?x * ?d" unfolding js_divide_def using x0 by (rule toDouble_upper)
  also have "\<dots> \<le> (198 / 199) * ?d" using x by (rule mult_right_mono) simp
  finally have y: "?y \<le> (198 / 199) * ?d" .
  have y0: "0 \<le> ?y" using js_divide_range [of m n] mn n0 by simp
  then have "0 \<le> ?y * 100" by simp
  then have "?z \<le> ?y * 100 * ?d" unfolding js_times_def by (rule toDouble_upper)
  also have "\<dots> \<le> ((198 / 199) * ?d) * 100 * ?d"
    using y by (intro mult_right_mono) simp_all
  also have "\<dots> < 199 / 2" by simp
  finally have "?z + 1 / 2 < 100" by simp
  then have "\<lfloor>?z + 1 / 2\<rfloor> < 100" by (simp add: floor_less_iff)
  with n0 show ?thesis by (simp add: js_matchPercentage_def Math_round_def)
qed

lemma filter_all_length:
  "length (filter P xs) = length xs \<Longrightarrow> list_all P xs"
proof (induction xs)
  case Nil
  show ?case by simp
next
  case (Cons x xs)
  have le: "length (filter P xs) \<le> length xs" by (rule length_filter_le)
  show ?case
  proof (cases "P x")
    case True
    with Cons show ?thesis by simp
  next
    case False
    with Cons.prems le show ?thesis by simp
  qed
qed

lemma exact_imp_100:
  assumes "exactMatch_p1 (map toLowerCase available) r"
  shows "matchPercentage (scoreRecipe_p1 available r) = 100"
proof -
  let ?req = "extractIngredientNames_p1 (ingredients r)"
  let ?P = "\<lambda>req. list_ex (\<lambda>avail. js_includes req avail) (map toLowerCase available)"
  from assms have ne: "0 < length ?req" and all: "list_all ?P ?req"
    by (simp_all add: exactMatch_p1_def Let_def split: if_splits)
  from all have "filter ?P ?req = ?req" by (simp add: list_all_iff)
  with ne show ?thesis
    by (simp add: scoreRecipe_p1_percentage percentage_all)
qed

lemma full_score_imp_exact:
  assumes "matchPercentage (scoreRecipe_p1 available r) = 100"
    and "length (extractIngredientNames_p1 (ingredients r)) < 200"
  shows "exactMatch_p1 (map toLowerCase available) r"
proof -
  let ?req = "extractIngredientNames_p1 (ingredients r)"
  let ?P = "\<lambda>req. list_ex (\<lambda>avail. js_includes req avail) (map toLowerCase available)"
  from assms(1) have s: "js_matchPercentage (length (filter ?P ?req)) (length ?req) = 100"
    by (simp add: scoreRecipe_p1_percentage)
  have le: "length (filter ?P ?req) \<le> length ?req" by (rule length_filter_le)
  have "\<not> length (filter ?P ?req) < length ?req"
    using percentage_one_missing [OF _ assms(2), of "length (filter ?P ?req)"] s by auto
  with le have eq: "length (filter ?P ?req) = length ?req" by linarith
  then have "list_all ?P ?req" by (rule filter_all_length)
  moreover from s have "0 < length ?req"
    by (auto simp: js_matchPercentage_def split: if_splits)
  ultimately show ?thesis by (simp add: exactMatch_p1_def Let_def)
qed

text \<open>The two roundings at 199 of 200: the quotient falls just short of 0.995, the product is 99.5.\<close>

lemma js_divide_199_200: "js_divide 199 200 = 8962163258467287 / 9007199254740992"
proof -
  define x :: rat where "x = 199 / 200"
  have pos: "0 < x" by (simp add: x_def)
  have c: "\<lceil>1 / x\<rceil> = 2" by (simp add: x_def ceiling_eq_iff)
  have lt: "\<not> 1 \<le> x" by (simp add: x_def)
  have b: "binade x = - 1"
    using lt by (simp add: binade_def c bitLength.simps)
  have t: "x * 2 powi (52 - (- 1)) = 8962163258467287 + 1 / 25"
    by (simp add: x_def)
  have f: "\<lfloor>8962163258467287 + 1 / 25 :: rat\<rfloor> = 8962163258467287"
    by (simp add: floor_eq_iff)
  have r: "roundTiesToEven (8962163258467287 + 1 / 25) = 8962163258467287"
    unfolding roundTiesToEven_def Let_def f by simp
  have "toDouble x = of_int (roundTiesToEven (x * 2 powi (52 - binade x))) * 2 powi (binade x - 52)"
    using pos by (rule toDouble_pos)
  then have "toDouble x = of_int 8962163258467287 * 2 powi (- 1 - 52)"
    by (simp only: b t r)
  then have "toDouble x = 8962163258467287 / 9007199254740992"
    by (simp add: power_int_minus_divide)
  then show ?thesis by (simp add: js_divide_def x_def)
qed

lemma js_times_995: "js_times (8962163258467287 / 9007199254740992) 100 = 199 / 2"
proof -
  define p :: rat where "p = 8962163258467287 / 9007199254740992 * 100"
  have pos: "0 < p" by (simp add: p_def)
  have one: "1 \<le> p" by (simp add: p_def)
  have fl: "\<lfloor>p\<rfloor> = 99" by (simp add: p_def floor_eq_iff)
  have b: "binade p = 6"
    using one by (simp add: binade_def fl bitLength.simps)
  have t: "p * 2 powi (52 - 6) = 7001690045677567 + 31 / 32"
    by (simp add: p_def)
  have f: "\<lfloor>7001690045677567 + 31 / 32 :: rat\<rfloor> = 7001690045677567"
    by (simp add: floor_eq_iff)
  have r: "roundTiesToEven (7001690045677567 + 31 / 32) = 7001690045677568"
    unfolding roundTiesToEven_def Let_def f by simp
  have "toDouble p = of_int (roundTiesToEven (p * 2 powi (52 - binade p))) * 2 powi (binade p - 52)"
    using pos by (rule toDouble_pos)
  then have "toDouble p = of_int 7001690045677568 * 2 powi (6 - 52)"
    by (simp only: b t r)
  then have "toDouble p = 199 / 2"
    by (simp add: power_int_minus_divide)
  then show ?thesis by (simp only: js_times_def p_def)
qed

lemma percentage_199_200: "js_matchPercentage 199 200 = 100"
  by (simp add: js_matchPercentage_def Math_round_def js_divide_199_200 js_times_995
        floor_eq_iff)

lemma set_rankResults:
  "set (rankResults m rs) = {r \<in> set rs. m \<le> of_int (matchPercentage r)}"
  by (simp add: rankResults_sort_key)

lemma exact_p1_result:
  assumes "failure st = None"
  shows "fst (recipesWithExactIngredients_p1 available filters st) =
           Inr (filter (exactMatch_p1 (map toLowerCase available))
                  (filter (\<lambda>r. list_all (satisfies r) (buildPrismaWhereClause filters)) (rows st)))"
  using assms by (simp add: recipesWithExactIngredients_p1_def findMany_def Let_def)

lemma byIngredientMatch_p1_result:
  assumes "failure st = None"
  shows "fst (recipesByIngredientMatch_p1 available m filters st) =
           Inr (rankResults m (map (scoreRecipe_p1 available)
                  (filter (\<lambda>r. list_all (satisfies r) (buildPrismaWhereClause filters)) (rows st))))"
  using assms by (simp add: recipesByIngredientMatch_p1_def findMany_def)

lemma scoreRecipe_p1_le_100: "matchPercentage (scoreRecipe_p1 available r) \<le> 100"
  unfolding scoreRecipe_p1_percentage
  using percentage_range [OF length_filter_le] by blast

text \<open>
  C2 as stated fails. In the third generation a recipe with 200 normalized ingredients of
  which 199 match scores \<^verbatim>\<open>Math.round(99.5) = 100\<close> and is not returned by exact mode. In the
  first generation exact mode tests the raw lines, and \<^verbatim>\<open>every\<close> holds of a recipe without
  ingredient lines, which scores 0.
\<close>

theorem exact_not_threshold_100_counterexample:
  "fst (recipesWithExactIngredients_p1 [js ''onion''] None
          (mkStore [mkRecipe 1 (replicate 199 (js ''onion'') @ [js ''pepper''])])) = Inr [] \<and>
   matchPercentage
     (scoreRecipe_p1 [js ''onion'']
        (mkRecipe 1 (replicate 199 (js ''onion'') @ [js ''pepper'']))) = 100 \<and>
   recipesWithExactIngredients_lib [js ''onion''] [mkRecipe 2 []] = [mkRecipe 2 []] \<and>
   matchPercentage (scoreRecipe_lib [js ''onion''] (mkRecipe 2 [])) = 0"
proof -
  let ?r = "mkRecipe 1 (replicate 199 (js ''onion'') @ [js ''pepper''])"
  have c1: "cleanIngredient_p1 (js ''onion'') = js ''onion''" by (simp add: js_eval)
  have c2: "cleanIngredient_p1 (js ''pepper'') = js ''pepper''" by (simp add: js_eval)
  have n1: "js ''onion'' \<noteq> []" and n2: "js ''pepper'' \<noteq> []" by (simp_all add: js_def)
  have e: "extractIngredientNames_p1 (ingredients ?r) = replicate 199 (js ''onion'') @ [js ''pepper'']"
    by (simp add: mkRecipe_def extractIngredientNames_p1_def c1 c2 n1 n2)
  have i2: "\<not> js_includes (js ''pepper'') (js ''onion'')" by (simp add: js_def)
  have ex: "\<not> exactMatch_p1 (map toLowerCase [js ''onion'']) ?r"
    by (simp add: exactMatch_p1_def e lower_onion i2)
  have f: "failure (mkStore [?r]) = None" and rw: "rows (mkStore [?r]) = [?r]"
    by (simp_all add: mkStore_def)
  have a: "fst (recipesWithExactIngredients_p1 [js ''onion''] None (mkStore [?r])) = Inr []"
    unfolding exact_p1_result [OF f] using ex by (simp add: rw buildPrismaWhereClause_def)
  have b: "matchPercentage (scoreRecipe_p1 [js ''onion''] ?r) = 100"
    by (simp add: scoreRecipe_p1_percentage e lower_onion includes_onion i2 percentage_199_200)
  have c: "recipesWithExactIngredients_lib [js ''onion''] [mkRecipe 2 []] = [mkRecipe 2 []]"
    by (simp add: recipesWithExactIngredients_lib_def mkRecipe_def)
  have d: "matchPercentage (scoreRecipe_lib [js ''onion''] (mkRecipe 2 [])) = 0"
    by (simp add: scoreRecipe_lib_def mkRecipe_def extractIngredientNames_lib_def Math_round_zero)
  from a b c d show ?thesis by blast
qed

text \<open>
  C2 (as amended). In the third generation, when the store answers: every recipe returned
  by recipesWithExactIngredients is returned, with matchPercentage exactly 100, by
  recipesByIngredientMatch at the threshold 100 with the same available list and filters;
  every entry returned at the threshold 100 has matchPercentage 100; and an entry whose
  recipe has fewer than 200 normalized ingredients is a recipe that exact mode returns.
\<close>

theorem exact_is_threshold_100:
  assumes "failure st = None"
  shows "case (fst (recipesWithExactIngredients_p1 available filters st),
               fst (recipesByIngredientMatch_p1 available 100 filters st)) of
           (Inr exact, Inr ranked) \<Rightarrow>
             set exact \<subseteq> recipe ` set ranked \<and>
             (\<forall>res\<in>set ranked. matchPercentage res = 100 \<and>
                (length (extractIngredientNames_p1 (ingredients (recipe res))) < 200 \<longrightarrow>
                   recipe res \<in> set exact))
         | _ \<Rightarrow> False"
proof -
  let ?cands = "filter (\<lambda>r. list_all (satisfies r) (buildPrismaWhereClause filters)) (rows st)"
  let ?exact = "filter (exactMatch_p1 (map toLowerCase available)) ?cands"
  let ?ranked = "rankResults 100 (map (scoreRecipe_p1 available) ?cands)"
  have sub: "set ?exact \<subseteq> recipe ` set ?ranked"
  proof
    fix r assume "r \<in> set ?exact"
    then have r: "r \<in> set ?cands" and "exactMatch_p1 (map toLowerCase available) r" by simp_all
    then have "matchPercentage (scoreRecipe_p1 available r) = 100" by (simp add: exact_imp_100)
    with r have "scoreRecipe_p1 available r \<in> set ?ranked"
      by (simp add: set_rankResults)
    then have "recipe (scoreRecipe_p1 available r) \<in> recipe ` set ?ranked" by (rule imageI)
    then show "r \<in> recipe ` set ?ranked" by simp
  qed
  have conv: "\<forall>res\<in>set ?ranked. matchPercentage res = 100 \<and>
                (length (extractIngredientNames_p1 (ingredients (recipe res))) < 200 \<longrightarrow>
                   recipe res \<in> set ?exact)"
  proof
    fix res assume "res \<in> set ?ranked"
    then obtain r where r: "r \<in> set ?cands" and res: "res = scoreRecipe_p1 available r"
      and ge: "100 \<le> matchPercentage res"
      by (auto simp: set_rankResults)
    from ge res scoreRecipe_p1_le_100 [of available r] have p: "matchPercentage res = 100"
      by simp
    have "length (extractIngredientNames_p1 (ingredients (recipe res))) < 200 \<longrightarrow>
            recipe res \<in> set ?exact"
    proof
      assume "length (extractIngredientNames_p1 (ingredients (recipe res))) < 200"
      with p res have "exactMatch_p1 (map toLowerCase available) r"
        by (simp add: full_score_imp_exact)
      with r res show "recipe res \<in> set ?exact" by simp
    qed
    with p show "matchPercentage res = 100 \<and>
                (length (extractIngredientNames_p1 (ingredients (recipe res))) < 200 \<longrightarrow>
                   recipe res \<in> set ?exact)" by simp
  qed
  show ?thesis
    unfolding exact_p1_result [OF assms] byIngredientMatch_p1_result [OF assms]
    by (simp only: prod.case sum.case) (intro conjI sub conv)
qed

theorem exact_is_threshold_100_witness:
  "failure (mkStore [mkRecipe 1 [js ''onion'']]) = None \<and>
   fst (recipesWithExactIngredients_p1 [js ''onion''] None (mkStore [mkRecipe 1 [js ''onion'']])) =
     Inr [mkRecipe 1 [js ''onion'']] \<and>
   (case fst (recipesByIngredientMatch_p1 [js ''onion''] 100 None
                (mkStore [mkRecipe 1 [js ''onion'']])) of
      Inr ranked \<Rightarrow> mkRecipe 1 [js ''onion''] \<in> recipe ` set ranked \<and>
                    (\<forall>res\<in>set ranked. matchPercentage res = 100)
    | Inl e \<Rightarrow> False)"
proof -
  let ?st = "mkStore [mkRecipe 1 [js ''onion'']]"
  have f: "failure ?st = None" by (simp add: mkStore_def)
  have ex: "fst (recipesWithExactIngredients_p1 [js ''onion''] None ?st) =
              Inr [mkRecipe 1 [js ''onion'']]"
    unfolding exact_p1_result [OF f]
    by (simp add: mkStore_def mkRecipe_def buildPrismaWhereClause_def exactMatch_p1_def
          extract_p1_onion lower_onion includes_onion)
  show ?thesis
    using exact_is_threshold_100 [OF f, of "[js ''onion'']" None] f
    unfolding ex by (auto split: sum.splits)
qed

end
